theory Spec2Isabelle
  imports Main "HOL-Library.AList"
begin

section \<open>vite-plugin-deploy-s3: the sync pass of \<^verbatim>\<open>src/main.ts\<close>\<close>

text \<open>
  The plugin's \<^verbatim>\<open>writeBundle\<close> hook lists the files of the build output, loads the
  manifest \<^verbatim>\<open>fingerprints.json\<close> from the bucket, uploads the files whose SHA-256 digest
  is not the recorded one, deletes or tags the manifest entries that no file matched, and
  writes the new manifest. The theory embeds that hook and the \<^verbatim>\<open>Client\<close> class it
  drives. Everything that lives outside the repository is a parameter: the S3 service
  (a function from a command to its outcome), and the library functions of Node, Vite,
  fast-glob and mime-types (the record \<open>env\<close>).
\<close>

subsection \<open>Strings, bytes and thrown values\<close>

text \<open>
  A string is the list of the bytes of its UTF-8 form. The code compares and cuts strings
  only at the ASCII literals \<^verbatim>\<open>'/'\<close> and \<^verbatim>\<open>'.html'\<close>, where bytes and JavaScript's code
  units agree.
\<close>

type_synonym bytes = "char list"

text \<open>\<^verbatim>\<open>String.prototype.startsWith\<close>, \<^verbatim>\<open>endsWith\<close> and \<^verbatim>\<open>slice(0, -n)\<close>.\<close>

definition startsWith :: "string \<Rightarrow> string \<Rightarrow> bool" where
  "startsWith s t = (take (length t) s = t)"

definition endsWith :: "string \<Rightarrow> string \<Rightarrow> bool" where
  "endsWith s t = (length t \<le> length s \<and> drop (length s - length t) s = t)"

definition slice_end :: "string \<Rightarrow> nat \<Rightarrow> string" where
  "slice_end s n = take (length s - n) s"

text \<open>
  A value that a JavaScript \<^verbatim>\<open>throw\<close> (or a rejected promise) carries: an instance of
  \<^verbatim>\<open>Error\<close> with its \<^verbatim>\<open>name\<close>, or anything else. The handlers of \<^verbatim>\<open>Client\<close> test
  \<^verbatim>\<open>err instanceof Error && err.name === ...\<close>.
\<close>

datatype thrown = JsError string | NonError

fun error_named :: "thrown \<Rightarrow> string \<Rightarrow> bool" where
  "error_named (JsError n) m = (n = m)"
| "error_named NonError m = False"

subsection \<open>The S3 service\<close>

datatype ObjectCannedACL = acl_private | acl_public_read

datatype body = Buffer bytes | Text string

fun byteLength :: "body \<Rightarrow> nat" where
  "byteLength (Buffer b) = length b"
| "byteLength (Text s) = length s"

record PutObjectRequest =
  Bucket :: string
  Key :: string
  Body :: body
  ContentType :: "string option"
  ContentLength :: nat
  CacheControl :: "string option"
  ACL :: "ObjectCannedACL option"
  ContentEncoding :: "string option"

text \<open>
  The four commands the client sends. \<open>GetObject\<close> and \<open>DeleteObject\<close> carry bucket and
  key, \<open>PutObjectTagging\<close> also the tag set.
\<close>

datatype command =
    GetObject string string
  | PutObject PutObjectRequest
  | DeleteObject string string
  | PutObjectTagging string string "(string \<times> string) list"

text \<open>
  The service answers a command in a state of its own: it fails with a thrown value, or
  succeeds; the success of \<open>GetObject\<close> carries the bytes of the response body when the
  response has one (\<^verbatim>\<open>r.Body!.transformToByteArray()\<close>; a failure of that read is a
  failure of the command). What the service answers is not the repository's code, so the
  theorems quantify over it.
\<close>

type_synonym 's S3 = "'s \<Rightarrow> command \<Rightarrow> (thrown + bytes option) \<times> 's"

text \<open>What a pass does is observable as the commands it sends and the lines it logs.\<close>

datatype event =
    Sent command
  | Compressed string nat
  | Uploaded string
  | Deleted string
  | Deployed

record 's world =
  remote :: 's
  events :: "event list"

type_synonym ('s, 'a) await = "'s world \<Rightarrow> (thrown + 'a) \<times> 's world"

definition return :: "'a \<Rightarrow> ('s, 'a) await" where
  "return a w = (Inr a, w)"

definition throw :: "thrown \<Rightarrow> ('s, 'a) await" where
  "throw e w = (Inl e, w)"

text \<open>\<^verbatim>\<open>await m\<close> followed by the rest of the function: a rejection skips the rest.\<close>

definition bind :: "('s, 'a) await \<Rightarrow> ('a \<Rightarrow> ('s, 'b) await) \<Rightarrow> ('s, 'b) await" where
  "bind m f w = (case m w of (Inl e, w') \<Rightarrow> (Inl e, w') | (Inr a, w') \<Rightarrow> f a w')"

definition info :: "event \<Rightarrow> ('s, unit) await" where
  "info ev w = (Inr (), w\<lparr>events := events w @ [ev]\<rparr>)"

definition send :: "'s S3 \<Rightarrow> command \<Rightarrow> ('s, bytes option) await" where
  "send svc c w =
     (case svc (remote w) c of
        (r, s') \<Rightarrow> (r, w\<lparr>remote := s', events := events w @ [Sent c]\<rparr>))"

subsection \<open>The manifest\<close>

text \<open>
  \<^verbatim>\<open>interface FileFingerprint { hash: string; __processed?: boolean }\<close> and
  \<^verbatim>\<open>interface FileFingerprintMap { [key: string]: FileFingerprint }\<close>. A map object is
  the list of its own properties in the order \<^verbatim>\<open>for ... in\<close> visits them, one entry per
  name; assigning to a name that is there replaces the value in place
  (\<open>AList.update\<close>). The field \<open>processed\<close> is \<^verbatim>\<open>__processed\<close>, \<open>None\<close> when the object
  has no such property.
\<close>

record FileFingerprint =
  hash :: string
  processed :: "bool option"

type_synonym FileFingerprintMap = "(string \<times> FileFingerprint) list"

subsection \<open>Library functions\<close>

record ZlibOptions =
  level :: "int option"
  memLevel :: "int option"
  strategy :: "int option"

text \<open>
  \<^item> \<open>fg\<close>: fast-glob's \<^verbatim>\<open>fg(['**/*'], {cwd, onlyFiles: true, absolute: true})\<close>, the
    absolute paths of the files under a directory, or the value it rejects with;
  \<^item> \<open>relative\<close>, \<open>extname\<close>: \<^verbatim>\<open>node:path\<close>; \<open>normalizePath\<close>: Vite;
  \<^item> \<open>readFile\<close>: \<^verbatim>\<open>node:fs/promises\<close>, which rejects when the file cannot be read;
  \<^item> \<open>sha256_hex\<close>: \<^verbatim>\<open>createHash('sha256').update(data).digest('hex')\<close>;
  \<^item> \<open>mime_lookup\<close>: \<^verbatim>\<open>mime.lookup\<close>, \<open>None\<close> for its \<^verbatim>\<open>false\<close>;
  \<^item> \<open>gzipAsync\<close>: the promisified \<^verbatim>\<open>zlib.gzip\<close>;
  \<^item> \<open>JSON_parse\<close>: \<^verbatim>\<open>JSON.parse(Buffer.from(r).toString('utf-8')) as FileFingerprintMap\<close>:
    the properties of the parsed object in the order \<^verbatim>\<open>for ... in\<close> visits them,
    \<open>None\<close> for a \<^verbatim>\<open>SyntaxError\<close>;
  \<^item> \<open>JSON_stringify\<close>: \<^verbatim>\<open>JSON.stringify\<close> of a map object, given as its properties in
    the order of their first assignment.
\<close>

record env =
  fg :: "string \<Rightarrow> thrown + string list"
  relative :: "string \<Rightarrow> string \<Rightarrow> string"
  normalizePath :: "string \<Rightarrow> string"
  extname :: "string \<Rightarrow> string"
  readFile :: "string \<Rightarrow> thrown + bytes"
  sha256_hex :: "bytes \<Rightarrow> string"
  mime_lookup :: "string \<Rightarrow> string option"
  gzipAsync :: "bytes \<Rightarrow> ZlibOptions option \<Rightarrow> thrown + bytes"
  JSON_parse :: "bytes \<Rightarrow> (string \<times> FileFingerprint) list option"
  JSON_stringify :: "FileFingerprintMap \<Rightarrow> string"

text \<open>
  An object has one property per name: a list that names one twice is read as the object
  that assigning its members in turn builds (the first place, the last value).
\<close>

definition object_of :: "(string \<times> FileFingerprint) list \<Rightarrow> FileFingerprintMap" where
  "object_of members = foldl (\<lambda>obj (k, v). AList.update k v obj) [] members"

subsection \<open>The class \<^verbatim>\<open>Client\<close>\<close>

record S3Options =
  bucket :: string
  region :: string
  accessKeyId :: string
  secretAccessKey :: string
  endpoint :: string
  prefix :: string

record PutObjectOptions =
  contentType :: "string option"
  contentEncoding :: "string option"
  cacheControl :: "string option"
  acl :: "ObjectCannedACL option"

definition normalizeKey :: "S3Options \<Rightarrow> string \<Rightarrow> string" where
  "normalizeKey opts key = prefix opts @ (if startsWith key ''/'' then key else ''/'' @ key)"

text \<open>The \<^verbatim>\<open>catch\<close> block of \<^verbatim>\<open>get\<close>.\<close>

definition get_catch :: "thrown \<Rightarrow> ('s, bytes option) await" where
  "get_catch err =
     (if error_named err ''NoSuchKey'' \<or> error_named err ''AccessDenied''
      then return None else throw err)"

text \<open>
  \<^verbatim>\<open>get\<close>: a response without a body makes \<^verbatim>\<open>r.Body!.transformToByteArray()\<close> throw a
  \<^verbatim>\<open>TypeError\<close> inside the \<^verbatim>\<open>try\<close>. \<open>None\<close> is the \<^verbatim>\<open>undefined\<close> that \<^verbatim>\<open>get\<close>
  returns.
\<close>

definition get :: "'s S3 \<Rightarrow> S3Options \<Rightarrow> string \<Rightarrow> ('s, bytes option) await" where
  "get svc opts key w =
     (case send svc (GetObject (bucket opts) (normalizeKey opts key)) w of
        (Inr (Some b), w') \<Rightarrow> (Inr (Some b), w')
      | (Inr None, w') \<Rightarrow> get_catch (JsError ''TypeError'') w'
      | (Inl err, w') \<Rightarrow> get_catch err w')"

definition getJson ::
  "env \<Rightarrow> 's S3 \<Rightarrow> S3Options \<Rightarrow> string \<Rightarrow> ('s, FileFingerprintMap option) await" where
  "getJson e svc opts key =
     bind (get svc opts key) (\<lambda>r.
       case r of
         None \<Rightarrow> return None
       | Some b \<Rightarrow>
           (case JSON_parse e b of
              None \<Rightarrow> throw (JsError ''SyntaxError'')
            | Some members \<Rightarrow> return (Some (object_of members))))"

text \<open>The argument of \<^verbatim>\<open>this._client.putObject\<close> in \<^verbatim>\<open>put\<close>.\<close>

definition putObject_input ::
  "S3Options \<Rightarrow> string \<Rightarrow> body \<Rightarrow> PutObjectOptions option \<Rightarrow> PutObjectRequest" where
  "putObject_input opts key b options =
     \<lparr>Bucket = bucket opts,
      Key = normalizeKey opts key,
      Body = b,
      ContentType = Option.bind options contentType,
      ContentLength = byteLength b,
      CacheControl = Option.bind options cacheControl,
      ACL = Option.bind options acl,
      ContentEncoding = Option.bind options contentEncoding\<rparr>"

definition put ::
  "'s S3 \<Rightarrow> S3Options \<Rightarrow> string \<Rightarrow> body \<Rightarrow> PutObjectOptions option \<Rightarrow> ('s, unit) await" where
  "put svc opts key b options =
     bind (send svc (PutObject (putObject_input opts key b options))) (\<lambda>_. return ())"

definition del :: "'s S3 \<Rightarrow> S3Options \<Rightarrow> string \<Rightarrow> ('s, unit) await" where
  "del svc opts key =
     bind (send svc (DeleteObject (bucket opts) (normalizeKey opts key))) (\<lambda>_. return ())"

definition tag :: "'s S3 \<Rightarrow> S3Options \<Rightarrow> string \<Rightarrow> string \<Rightarrow> string \<Rightarrow> ('s, unit) await" where
  "tag svc opts key tagKey tagValue w =
     (case send svc
             (PutObjectTagging (bucket opts) (normalizeKey opts key) [(tagKey, tagValue)]) w of
        (Inr _, w') \<Rightarrow> (Inr (), w')
      | (Inl err, w') \<Rightarrow> (if error_named err ''NoSuchKey'' then (Inr (), w') else (Inl err, w')))"

subsection \<open>The plugin options\<close>

datatype deleteUseTag_option = TagString string | TagObject string string

datatype gzip_option = GzipFlag bool | GzipOptions ZlibOptions

record DeployOptions =
  s3 :: S3Options
  cleanHtmlSuffix :: "bool option"
  deleteUseTag :: "deleteUseTag_option option"
  gzip :: "gzip_option option"


text \<open>Truthiness of \<^verbatim>\<open>options.gzip\<close>, and the second argument of \<^verbatim>\<open>gzipAsync\<close>.\<close>

fun gzip_enabled :: "gzip_option option \<Rightarrow> bool" where
  "gzip_enabled None = False"
| "gzip_enabled (Some (GzipFlag b)) = b"
| "gzip_enabled (Some (GzipOptions z)) = True"

fun gzip_arg :: "gzip_option option \<Rightarrow> ZlibOptions option" where
  "gzip_arg (Some (GzipOptions z)) = Some z"
| "gzip_arg _ = None"

subsection \<open>\<^verbatim>\<open>getFiles\<close>, \<^verbatim>\<open>hash\<close> and \<^verbatim>\<open>getFileMeta\<close>\<close>

definition getFiles :: "env \<Rightarrow> string \<Rightarrow> thrown + string list" where
  "getFiles e outDir = fg e outDir"

definition hash_file :: "env \<Rightarrow> string \<Rightarrow> thrown + string" where
  "hash_file e path =
     (case readFile e path of Inl err \<Rightarrow> Inl err | Inr data \<Rightarrow> Inr (sha256_hex e data))"

definition getFileMeta :: "env \<Rightarrow> string \<Rightarrow> PutObjectOptions" where
  "getFileMeta e file =
     \<lparr>contentType =
        Some (case mime_lookup e (extname e file) of
                Some t \<Rightarrow> t
              | None \<Rightarrow> ''application/octet-stream''),
      contentEncoding = None,
      cacheControl =
        (if \<not> endsWith file ''.html'' then Some ''public, max-age=31536000, immutable''
         else None),
      acl = Some acl_public_read\<rparr>"

subsection \<open>The loop over the local files\<close>

text \<open>
  What the loops of \<^verbatim>\<open>writeBundle\<close> read and write: the loaded map \<^verbatim>\<open>fingerprints\<close>, the
  map \<^verbatim>\<open>newFingerprints\<close> under construction, and whether \<^verbatim>\<open>Object.prototype\<close> has been
  given a property \<^verbatim>\<open>__processed\<close> (see \<open>mark_processed\<close>).
\<close>

record pass_state =
  fingerprints :: FileFingerprintMap
  newFingerprints :: FileFingerprintMap
  proto_processed :: bool

definition logical_name :: "env \<Rightarrow> DeployOptions \<Rightarrow> string \<Rightarrow> string \<Rightarrow> string" where
  "logical_name e options outDir file =
     (let name = normalizePath e (relative e outDir file)
      in if cleanHtmlSuffix options = Some True \<and> endsWith name ''.html''
         then slice_end name 5 else name)"

text \<open>
  Lines 135 to 137, \<^verbatim>\<open>if (fingerprints[name]) { fingerprints[name].__processed = true }\<close>.
  Both maps are plain objects, so a name that is not an own property is read through
  \<^verbatim>\<open>Object.prototype\<close>:
  \<^item> an entry of the map is an object, hence truthy, and gets the marker;
  \<^item> \<^verbatim>\<open>fingerprints['__proto__']\<close> is \<^verbatim>\<open>Object.prototype\<close> itself, so the assignment
    creates \<^verbatim>\<open>Object.prototype.__processed = true\<close>, which every object then inherits;
  \<^item> once that has happened, \<^verbatim>\<open>fingerprints['__processed']\<close> is the inherited \<^verbatim>\<open>true\<close>,
    and assigning a property of a primitive throws a \<^verbatim>\<open>TypeError\<close> in module code;
  \<^item> the other names of \<^verbatim>\<open>Object.prototype\<close> (\<^verbatim>\<open>constructor\<close>, \<^verbatim>\<open>toString\<close>, ...) read as
    functions; the marker set on one is read by nothing; any other name reads as
    \<^verbatim>\<open>undefined\<close>.
  None of the inherited values has a property \<^verbatim>\<open>hash\<close>.
\<close>

definition mark_processed :: "string \<Rightarrow> pass_state \<Rightarrow> thrown + pass_state" where
  "mark_processed name st =
     (case map_of (fingerprints st) name of
        Some f \<Rightarrow>
          Inr (st\<lparr>fingerprints :=
                 AList.update name (f\<lparr>processed := Some True\<rparr>) (fingerprints st)\<rparr>)
      | None \<Rightarrow>
          if name = ''__proto__'' then Inr (st\<lparr>proto_processed := True\<rparr>)
          else if name = ''__processed'' \<and> proto_processed st then Inl (JsError ''TypeError'')
          else Inr st)"

text \<open>
  Lines 140 to 142, \<^verbatim>\<open>newFingerprints[name] = { hash: h }\<close>. Assigning to \<^verbatim>\<open>__proto__\<close>
  calls the setter of \<^verbatim>\<open>Object.prototype\<close>: it replaces the prototype of the map and
  creates no property, so \<^verbatim>\<open>JSON.stringify\<close> never sees it.
\<close>

definition assign_fingerprint :: "string \<Rightarrow> string \<Rightarrow> FileFingerprintMap \<Rightarrow> FileFingerprintMap" where
  "assign_fingerprint name h nf =
     (if name = ''__proto__'' then nf
      else AList.update name \<lparr>hash = h, processed = None\<rparr> nf)"

definition lift :: "thrown + 'a \<Rightarrow> ('s, 'a) await" where
  "lift r w = (r, w)"

text \<open>The body of the loop of lines 128 to 157.\<close>

definition process_file ::
  "env \<Rightarrow> 's S3 \<Rightarrow> DeployOptions \<Rightarrow> string \<Rightarrow> string \<Rightarrow> pass_state \<Rightarrow> ('s, pass_state) await"
  where
  "process_file e svc options outDir file st =
     (let name = logical_name e options outDir file in
      bind (lift (mark_processed name st)) (\<lambda>st1.
      bind (lift (hash_file e file)) (\<lambda>h.
        let st2 = st1\<lparr>newFingerprints := assign_fingerprint name h (newFingerprints st1)\<rparr> in
        if map_option hash (map_of (fingerprints st2) name) \<noteq> Some h then
          (let meta = getFileMeta e file in
           bind (lift (readFile e file)) (\<lambda>data.
           bind (if \<not> endsWith file ''.html'' \<and> gzip_enabled (gzip options)
                 then bind (lift (gzipAsync e data (gzip_arg (gzip options)))) (\<lambda>z.
                      bind (info (Compressed name (length z))) (\<lambda>_.
                      return (z, meta\<lparr>contentEncoding := Some ''gzip''\<rparr>)))
                 else return (data, meta)) (\<lambda>(payload, meta').
           bind (put svc (s3 options) name (Buffer payload) (Some meta')) (\<lambda>_.
           bind (info (Uploaded name)) (\<lambda>_.
           return st2)))))
        else return st2)))"

fun for_files ::
  "env \<Rightarrow> 's S3 \<Rightarrow> DeployOptions \<Rightarrow> string \<Rightarrow> string list \<Rightarrow> pass_state \<Rightarrow> ('s, pass_state) await"
  where
  "for_files e svc options outDir [] st = return st"
| "for_files e svc options outDir (file # files) st =
     bind (process_file e svc options outDir file st)
       (\<lambda>st'. for_files e svc options outDir files st')"

subsection \<open>The loop over the loaded manifest\<close>

text \<open>
  \<^verbatim>\<open>!fingerprints[key].__processed\<close>: the marker of the entry, or what the entry inherits
  from \<^verbatim>\<open>Object.prototype\<close> when it has none.
\<close>

definition is_processed :: "bool \<Rightarrow> FileFingerprint \<Rightarrow> bool" where
  "is_processed inherited f = (case processed f of Some b \<Rightarrow> b | None \<Rightarrow> inherited)"

text \<open>
  Lines 159 to 169. \<^verbatim>\<open>for ... in\<close> visits the own properties of the map; an inherited
  \<^verbatim>\<open>__processed\<close> is visited too, reads as processed and does nothing.
\<close>

fun for_fingerprints ::
  "'s S3 \<Rightarrow> S3Options \<Rightarrow> (string \<times> string) option \<Rightarrow> bool \<Rightarrow> FileFingerprintMap \<Rightarrow> ('s, unit) await"
  where
  "for_fingerprints svc opts dtag inherited [] = return ()"
| "for_fingerprints svc opts dtag inherited ((key, f) # rest) =
     (if \<not> is_processed inherited f then
        bind (case dtag of
                Some (k, v) \<Rightarrow> tag svc opts key k v
              | None \<Rightarrow> del svc opts key) (\<lambda>_.
        bind (info (Deleted key)) (\<lambda>_.
        for_fingerprints svc opts dtag inherited rest))
      else for_fingerprints svc opts dtag inherited rest)"

subsection \<open>\<^verbatim>\<open>writeBundle\<close>\<close>

definition manifest_options :: PutObjectOptions where
  "manifest_options =
     \<lparr>contentType = Some ''application/json'', contentEncoding = None,
      cacheControl = None, acl = Some acl_private\<rparr>"

text \<open>
  The hook, with the closure variables \<^verbatim>\<open>deleteUseTag\<close> (\<open>dtag\<close>) and \<^verbatim>\<open>_outDir\<close> as
  arguments. A pass starts with an \<^verbatim>\<open>Object.prototype\<close> that has no \<^verbatim>\<open>__processed\<close>.
\<close>

definition writeBundle ::
  "env \<Rightarrow> 's S3 \<Rightarrow> DeployOptions \<Rightarrow> (string \<times> string) option \<Rightarrow> string \<Rightarrow> ('s, unit) await"
  where
  "writeBundle e svc options dtag outDir =
     bind (lift (getFiles e outDir)) (\<lambda>files.
     bind (getJson e svc (s3 options) ''fingerprints.json'') (\<lambda>r.
       let loaded = (case r of None \<Rightarrow> [] | Some m \<Rightarrow> m) in
       bind (for_files e svc options outDir files
               \<lparr>fingerprints = loaded, newFingerprints = [], proto_processed = False\<rparr>) (\<lambda>st.
       bind (for_fingerprints svc (s3 options) dtag (proto_processed st) (fingerprints st)) (\<lambda>_.
       bind (put svc (s3 options) ''fingerprints.json''
               (Text (JSON_stringify e (newFingerprints st))) (Some manifest_options)) (\<lambda>_.
       info Deployed)))))"

section \<open>Vocabulary of the statements\<close>

text \<open>
  The definitions of this section describe a pass; the code above does not use them. The
  lemmas of the next section tie them to \<open>writeBundle\<close>.
\<close>

text \<open>The files of a listing that succeeds.\<close>

definition listing :: "env \<Rightarrow> string \<Rightarrow> string list" where
  "listing e outDir = (case getFiles e outDir of Inr files \<Rightarrow> files | Inl _ \<Rightarrow> [])"

text \<open>The events a run appended to the log.\<close>

definition new_events :: "'s world \<Rightarrow> 's world \<Rightarrow> event list" where
  "new_events w w' = drop (length (events w)) (events w')"

text \<open>The commands among some events, and the \<open>PutObject\<close> requests among them.\<close>

fun sent :: "event list \<Rightarrow> command list" where
  "sent [] = []"
| "sent (Sent c # evs) = c # sent evs"
| "sent (_ # evs) = sent evs"

fun puts :: "event list \<Rightarrow> PutObjectRequest list" where
  "puts [] = []"
| "puts (Sent (PutObject r) # evs) = r # puts evs"
| "puts (_ # evs) = puts evs"

text \<open>The hash that a map records under a name, if it has an entry of that name.\<close>

definition recorded_hash :: "FileFingerprintMap \<Rightarrow> string \<Rightarrow> string option" where
  "recorded_hash fps name = map_option hash (map_of fps name)"

text \<open>The digest of a file that can be read (\<open>hash_file e file = Inr (digest e file)\<close>).\<close>

definition digest :: "env \<Rightarrow> string \<Rightarrow> string" where
  "digest e file = (case hash_file e file of Inr h \<Rightarrow> h | Inl _ \<Rightarrow> [])"

definition set_marker :: "FileFingerprint \<Rightarrow> FileFingerprint" where
  "set_marker f = f\<lparr>processed := Some True\<rparr>"

text \<open>
  The events of one round of the loop over the files that runs to its end, given the
  loaded map: none when the recorded hash is the digest, else the upload.
\<close>

definition file_events ::
  "env \<Rightarrow> DeployOptions \<Rightarrow> string \<Rightarrow> FileFingerprintMap \<Rightarrow> string \<Rightarrow> event list" where
  "file_events e options outDir fps file =
     (let name = logical_name e options outDir file; meta = getFileMeta e file in
      case hash_file e file of
        Inl _ \<Rightarrow> []
      | Inr h \<Rightarrow>
          if recorded_hash fps name = Some h then []
          else (case readFile e file of
                  Inl _ \<Rightarrow> []
                | Inr data \<Rightarrow>
                    if \<not> endsWith file ''.html'' \<and> gzip_enabled (gzip options) then
                      (case gzipAsync e data (gzip_arg (gzip options)) of
                         Inl _ \<Rightarrow> []
                       | Inr z \<Rightarrow>
                           [Compressed name (length z),
                            Sent (PutObject (putObject_input (s3 options) name (Buffer z)
                                    (Some (meta\<lparr>contentEncoding := Some ''gzip''\<rparr>)))),
                            Uploaded name])
                    else
                      [Sent (PutObject (putObject_input (s3 options) name (Buffer data) (Some meta))),
                       Uploaded name]))"

text \<open>The command that the loop over the loaded manifest sends for a key.\<close>

definition mutation :: "S3Options \<Rightarrow> (string \<times> string) option \<Rightarrow> string \<Rightarrow> command" where
  "mutation opts dtag key =
     (case dtag of
        Some (k, v) \<Rightarrow> PutObjectTagging (bucket opts) (normalizeKey opts key) [(k, v)]
      | None \<Rightarrow> DeleteObject (bucket opts) (normalizeKey opts key))"

definition stale_events ::
  "S3Options \<Rightarrow> (string \<times> string) option \<Rightarrow> string list \<Rightarrow> event list" where
  "stale_events opts dtag keys = concat (map (\<lambda>k. [Sent (mutation opts dtag k), Deleted k]) keys)"

text \<open>The map that \<open>writeBundle\<close> starts from: the parsed manifest, or the empty map.\<close>

definition loaded_manifest :: "env \<Rightarrow> 's S3 \<Rightarrow> DeployOptions \<Rightarrow> 's world \<Rightarrow> FileFingerprintMap" where
  "loaded_manifest e svc options w =
     (case fst (getJson e svc (s3 options) ''fingerprints.json'' w) of
        Inr (Some m) \<Rightarrow> m
      | _ \<Rightarrow> [])"

text \<open>The map that the loop over the files builds when every file can be read.\<close>

definition written_manifest ::
  "env \<Rightarrow> DeployOptions \<Rightarrow> string \<Rightarrow> string list \<Rightarrow> FileFingerprintMap" where
  "written_manifest e options outDir files =
     foldl (\<lambda>nf f. assign_fingerprint (logical_name e options outDir f) (digest e f) nf) [] files"

text \<open>The request of the last \<^verbatim>\<open>client.put\<close> of \<open>writeBundle\<close>.\<close>

definition manifest_put :: "env \<Rightarrow> S3Options \<Rightarrow> FileFingerprintMap \<Rightarrow> PutObjectRequest" where
  "manifest_put e opts nf =
     putObject_input opts ''fingerprints.json'' (Text (JSON_stringify e nf)) (Some manifest_options)"

text \<open>
  Whether the loop over the files gives \<^verbatim>\<open>Object.prototype\<close> the marker: a file has the
  logical name \<^verbatim>\<open>__proto__\<close> and the loaded map has no entry of that name.
\<close>

definition proto_polluted :: "string list \<Rightarrow> FileFingerprintMap \<Rightarrow> bool" where
  "proto_polluted names loaded =
     (''__proto__'' \<in> set names \<and> map_of loaded ''__proto__'' = None)"

text \<open>The names of the loaded entries that the second loop finds unprocessed.\<close>

definition stale_keys :: "string list \<Rightarrow> FileFingerprintMap \<Rightarrow> string list" where
  "stale_keys names loaded =
     map fst (filter (\<lambda>(k, f). k \<notin> set names \<and>
                               \<not> is_processed (proto_polluted names loaded) f) loaded)"

text \<open>
  The spec's reading of a normalized key: the prefix and the key with exactly one slash
  between them, whatever slashes the prefix ends with and the key starts with.
\<close>

definition spec_join :: "string \<Rightarrow> string \<Rightarrow> string" where
  "spec_join p key =
     rev (dropWhile (\<lambda>c. c = CHR ''/'') (rev p)) @ ''/'' @ dropWhile (\<lambda>c. c = CHR ''/'') key"

text \<open>The entry that the loop over the files assigns for a file that can be read.\<close>

definition manifest_entry :: "env \<Rightarrow> DeployOptions \<Rightarrow> string \<Rightarrow> string \<Rightarrow> string \<times> FileFingerprint" where
  "manifest_entry e options outDir file =
     (logical_name e options outDir file, \<lparr>hash = digest e file, processed = None\<rparr>)"

text \<open>
  A file is changed when the loaded map has no entry under its logical name, or the hash
  of that entry is not the digest of the file.
\<close>

definition changed :: "env \<Rightarrow> DeployOptions \<Rightarrow> string \<Rightarrow> FileFingerprintMap \<Rightarrow> string \<Rightarrow> bool" where
  "changed e options outDir loaded file =
     (case map_of loaded (logical_name e options outDir file) of
        None \<Rightarrow> True
      | Some fp \<Rightarrow> hash fp \<noteq> digest e file)"

text \<open>The \<open>DeleteObject\<close> and \<open>PutObjectTagging\<close> commands among some events.\<close>

fun mutations :: "event list \<Rightarrow> command list" where
  "mutations [] = []"
| "mutations (Sent (DeleteObject b k) # evs) = DeleteObject b k # mutations evs"
| "mutations (Sent (PutObjectTagging b k ts) # evs) = PutObjectTagging b k ts # mutations evs"
| "mutations (_ # evs) = mutations evs"

text \<open>The names that the \<^verbatim>\<open>Compressed\<close> log lines among some events carry.\<close>

fun compressed :: "event list \<Rightarrow> string list" where
  "compressed [] = []"
| "compressed (Compressed n k # evs) = n # compressed evs"
| "compressed (_ # evs) = compressed evs"

section \<open>Instances to run the model on\<close>

text \<open>
  A bucket that keeps its objects in a list: \<open>GetObject\<close> and \<open>PutObjectTagging\<close> fail
  with \<^verbatim>\<open>NoSuchKey\<close> on a key that is absent, \<open>DeleteObject\<close> succeeds on it unless the
  bucket is \<open>strict\<close>.
\<close>

definition demo_bucket :: "bool \<Rightarrow> (string \<times> bytes) list S3" where
  "demo_bucket strict s c =
     (case c of
        GetObject b k \<Rightarrow>
          (case map_of s k of
             Some d \<Rightarrow> (Inr (Some d), s)
           | None \<Rightarrow> (Inl (JsError ''NoSuchKey''), s))
      | PutObject r \<Rightarrow>
          (Inr None, AList.update (Key r) (case Body r of Buffer d \<Rightarrow> d | Text t \<Rightarrow> t) s)
      | DeleteObject b k \<Rightarrow>
          (if strict \<and> map_of s k = None then (Inl (JsError ''NoSuchKey''), s)
           else (Inr None, AList.delete k s))
      | PutObjectTagging b k ts \<Rightarrow>
          (if map_of s k = None then (Inl (JsError ''NoSuchKey''), s) else (Inr None, s)))"

text \<open>A service that fails every command with the same value.\<close>

definition failing_s3 :: "thrown \<Rightarrow> unit S3" where
  "failing_s3 x s c = (Inl x, s)"

text \<open>
  Library functions over a disk given as a list of paths and contents. The digest and
  the compression are stand-ins that keep the contents visible; \<open>JSON_parse\<close> reads the
  texts of a table.
\<close>

definition demo_extname :: "string \<Rightarrow> string" where
  "demo_extname p =
     (let base = rev (takeWhile (\<lambda>c. c \<noteq> CHR ''/'') (rev p))
      in if CHR ''.'' \<in> set base
         then CHR ''.'' # rev (takeWhile (\<lambda>c. c \<noteq> CHR ''.'') (rev base))
         else [])"

definition demo_env ::
  "(string \<times> bytes) list \<Rightarrow> (bytes \<times> (string \<times> FileFingerprint) list) list \<Rightarrow> env" where
  "demo_env disk table =
     \<lparr>fg = (\<lambda>dir. Inr (filter (\<lambda>p. startsWith p (dir @ ''/'')) (map fst disk))),
      relative = (\<lambda>dir p. drop (length dir + 1) p),
      normalizePath = (\<lambda>p. p),
      extname = demo_extname,
      readFile = (\<lambda>p. case map_of disk p of Some d \<Rightarrow> Inr d | None \<Rightarrow> Inl (JsError ''Error'')),
      sha256_hex = (\<lambda>d. ''sha256:'' @ d),
      mime_lookup =
        (\<lambda>x. if x = ''.html'' then Some ''text/html''
             else if x = ''.js'' then Some ''application/javascript''
             else None),
      gzipAsync = (\<lambda>d z. Inr (''gzip:'' @ d)),
      JSON_parse = map_of table,
      JSON_stringify = (\<lambda>m. concat (map (\<lambda>(k, f). k @ ''='' @ hash f @ '';'') m))\<rparr>"

definition demo_s3options :: S3Options where
  "demo_s3options =
     \<lparr>bucket = ''b'', region = ''eu'', accessKeyId = ''id'', secretAccessKey = ''secret'',
      endpoint = ''https://cdn.example/'', prefix = ''site''\<rparr>"

definition demo_options :: "bool \<Rightarrow> bool \<Rightarrow> DeployOptions" where
  "demo_options clean compress =
     \<lparr>s3 = demo_s3options, cleanHtmlSuffix = Some clean, deleteUseTag = None,
      gzip = Some (GzipFlag compress)\<rparr>"

definition world0 :: "'s \<Rightarrow> 's world" where
  "world0 s = \<lparr>remote = s, events = []\<rparr>"

text \<open>
  A site of two files; the texts that \<open>JSON_stringify\<close> of \<open>demo_env\<close> writes for the
  manifests below, with the objects they parse to; a bucket left by an earlier pass over
  \<^verbatim>\<open>app.js\<close> and \<^verbatim>\<open>old.js\<close>.
\<close>

definition site_disk :: "(string \<times> bytes) list" where
  "site_disk = [(''/dist/index.html'', ''<h1>''), (''/dist/app.js'', ''run()'')]"

definition site_table :: "(bytes \<times> (string \<times> FileFingerprint) list) list" where
  "site_table =
     [(''index=sha256:<h1>;app.js=sha256:run();'',
       [(''index'', \<lparr>hash = ''sha256:<h1>'', processed = None\<rparr>),
        (''app.js'', \<lparr>hash = ''sha256:run()'', processed = None\<rparr>)]),
      (''app.js=sha256:run();old.js=sha256:x;'',
       [(''app.js'', \<lparr>hash = ''sha256:run()'', processed = None\<rparr>),
        (''old.js'', \<lparr>hash = ''sha256:x'', processed = None\<rparr>)]),
      (''about=sha256:B;'',
       [(''about'', \<lparr>hash = ''sha256:B'', processed = None\<rparr>)]),
      (''old.js=sha256:x;'',
       [(''old.js'', \<lparr>hash = ''sha256:x'', processed = None\<rparr>)]),
      (''old.js=sha256:x;(processed)'',
       [(''old.js'', \<lparr>hash = ''sha256:x'', processed = Some True\<rparr>)])]"

definition site_env :: env where
  "site_env = demo_env site_disk site_table"

definition site_options :: DeployOptions where
  "site_options = demo_options True True"

definition old_bucket :: "(string \<times> bytes) list" where
  "old_bucket =
     [(''site/fingerprints.json'', ''app.js=sha256:run();old.js=sha256:x;''),
      (''site/app.js'', ''gzip:run()''),
      (''site/old.js'', ''gzip:x'')]"

text \<open>
  Other build outputs: two files that share a logical name once \<^verbatim>\<open>.html\<close> is stripped, a
  file named \<^verbatim>\<open>__proto__\<close>, no file, and a file named like the manifest.
\<close>

definition about_env :: env where
  "about_env = demo_env [(''/dist/about'', ''A''), (''/dist/about.html'', ''B'')] site_table"

definition proto_env :: env where
  "proto_env = demo_env [(''/dist/__proto__'', ''P'')] site_table"

definition empty_env :: env where
  "empty_env = demo_env [] site_table"

definition manifest_env :: env where
  "manifest_env = demo_env [(''/dist/fingerprints.json'', ''{}'')] site_table"

definition stale_bucket :: "bytes \<Rightarrow> (string \<times> bytes) list" where
  "stale_bucket manifest = [(''site/fingerprints.json'', manifest), (''site/old.js'', ''gzip:x'')]"

section \<open>What a run does\<close>

subsection \<open>Awaiting\<close>

lemma bind_Inr: "m w = (Inr a, w1) \<Longrightarrow> bind m f w = f a w1"
  by (simp add: bind_def)

lemma bind_Inl: "m w = (Inl x, w1) \<Longrightarrow> bind m f w = (Inl x, w1)"
  by (simp add: bind_def)

lemma bind_InrE:
  assumes "bind m f w = (Inr b, w')"
  obtains a w1 where "m w = (Inr a, w1)" and "f a w1 = (Inr b, w')"
  using assms by (auto simp: bind_def split: prod.splits sum.splits)

lemma return_eq [simp]: "return a w = (r, w') \<longleftrightarrow> r = Inr a \<and> w' = w"
  by (auto simp: return_def)

lemma lift_eq [simp]: "lift x w = (r, w') \<longleftrightarrow> x = r \<and> w' = w"
  by (auto simp: lift_def)

lemma info_eq [simp]: "info ev w = (r, w') \<longleftrightarrow> r = Inr () \<and> w' = w\<lparr>events := events w @ [ev]\<rparr>"
  by (auto simp: info_def)

lemma send_events: "send svc c w = (r, w') \<Longrightarrow> events w' = events w @ [Sent c]"
  by (auto simp: send_def split: prod.splits)

lemma send_result: "fst (send svc c w) = fst (svc (remote w) c)"
  by (simp add: send_def split: prod.splits)

lemma put_events: "put svc opts key b options w = (r, w') \<Longrightarrow>
   events w' = events w @ [Sent (PutObject (putObject_input opts key b options))]"
  by (auto simp: put_def bind_def return_def split: prod.splits sum.splits dest: send_events)

lemma del_events: "del svc opts key w = (r, w') \<Longrightarrow>
   events w' = events w @ [Sent (DeleteObject (bucket opts) (normalizeKey opts key))]"
  by (auto simp: del_def bind_def return_def split: prod.splits sum.splits dest: send_events)

lemma tag_events: "tag svc opts key k v w = (r, w') \<Longrightarrow>
   events w' = events w @ [Sent (PutObjectTagging (bucket opts) (normalizeKey opts key) [(k, v)])]"
  by (auto simp: tag_def split: prod.splits sum.splits if_splits dest: send_events)

lemma get_events: "get svc opts key w = (r, w') \<Longrightarrow>
   events w' = events w @ [Sent (GetObject (bucket opts) (normalizeKey opts key))]"
  by (auto simp: get_def get_catch_def return_def throw_def split: prod.splits sum.splits option.splits if_splits dest: send_events)

lemma getJson_events: "getJson e svc opts key w = (r, w') \<Longrightarrow>
   events w' = events w @ [Sent (GetObject (bucket opts) (normalizeKey opts key))]"
  by (auto simp: getJson_def bind_def return_def throw_def split: prod.splits sum.splits option.splits dest: get_events)

lemma mark_processed_Inr:
  assumes "mark_processed name st = Inr st1"
  shows "fingerprints st1 = AList.map_entry name set_marker (fingerprints st)"
    and "newFingerprints st1 = newFingerprints st"
    and "proto_processed st1 =
           (proto_processed st \<or> (name = ''__proto__'' \<and> map_of (fingerprints st) name = None))"
proof -
  have upd: "map_of xs k = Some f \<Longrightarrow> AList.update k (g f) xs = AList.map_entry k g xs"
    for xs :: "(string \<times> FileFingerprint) list" and k f g
    by (induction xs) (auto split: if_splits)
  have idm: "map_of xs k = None \<Longrightarrow> AList.map_entry k g xs = xs"
    for xs :: "(string \<times> FileFingerprint) list" and k g
    by (induction xs) (auto split: if_splits)
  show "fingerprints st1 = AList.map_entry name set_marker (fingerprints st)"
    using assms upd[of "fingerprints st" name _ set_marker] idm[of "fingerprints st" name set_marker]
    by (auto simp: mark_processed_def set_marker_def split: option.splits if_splits)
  show "newFingerprints st1 = newFingerprints st"
    using assms by (auto simp: mark_processed_def split: option.splits if_splits)
  show "proto_processed st1 =
           (proto_processed st \<or> (name = ''__proto__'' \<and> map_of (fingerprints st) name = None))"
    using assms by (auto simp: mark_processed_def split: option.splits if_splits)
qed

lemma recorded_hash_map_entry [simp]:
  "recorded_hash (AList.map_entry k set_marker fps) = recorded_hash fps"
  by (rule ext) (simp add: recorded_hash_def AList.map_of_map_entry set_marker_def split: option.splits)

lemma file_events_cong:
  "recorded_hash fps = recorded_hash fps' \<Longrightarrow>
   file_events e options outDir fps file = file_events e options outDir fps' file"
  by (auto simp: file_events_def Let_def split: sum.splits)

lemma process_file_Inr:
  assumes "process_file e svc options outDir file st w = (Inr st', w')"
  shows "fingerprints st' =
           AList.map_entry (logical_name e options outDir file) set_marker (fingerprints st)"
    and "newFingerprints st' =
           assign_fingerprint (logical_name e options outDir file) (digest e file) (newFingerprints st)"
    and "proto_processed st' =
           (proto_processed st \<or> (logical_name e options outDir file = ''__proto__''
               \<and> map_of (fingerprints st) ''__proto__'' = None))"
    and "hash_file e file = Inr (digest e file)"
    and "events w' = events w @ file_events e options outDir (fingerprints st) file"
    and "recorded_hash (fingerprints st) (logical_name e options outDir file) \<noteq> Some (digest e file)
           \<longrightarrow> Uploaded (logical_name e options outDir file)
                 \<in> set (file_events e options outDir (fingerprints st) file)"
proof -
  define name where "name = logical_name e options outDir file"
  from assms obtain st1 w1 where m: "lift (mark_processed name st) w = (Inr st1, w1)"
    and r1: "bind (lift (hash_file e file)) (\<lambda>h.
        let st2 = st1\<lparr>newFingerprints := assign_fingerprint name h (newFingerprints st1)\<rparr> in
        if map_option hash (map_of (fingerprints st2) name) \<noteq> Some h then
          (let meta = getFileMeta e file in
           bind (lift (readFile e file)) (\<lambda>data.
           bind (if \<not> endsWith file ''.html'' \<and> gzip_enabled (gzip options)
                 then bind (lift (gzipAsync e data (gzip_arg (gzip options)))) (\<lambda>z.
                      bind (info (Compressed name (length z))) (\<lambda>_.
                      return (z, meta\<lparr>contentEncoding := Some ''gzip''\<rparr>)))
                 else return (data, meta)) (\<lambda>(payload, meta').
           bind (put svc (s3 options) name (Buffer payload) (Some meta')) (\<lambda>_.
           bind (info (Uploaded name)) (\<lambda>_.
           return st2)))))
        else return st2) w1 = (Inr st', w')"
    unfolding process_file_def name_def Let_def by (erule bind_InrE)
  from m have m': "mark_processed name st = Inr st1" and w1: "w1 = w" by simp_all
  note ms = mark_processed_Inr[OF m']
  from r1 obtain h w2 where hh: "lift (hash_file e file) w1 = (Inr h, w2)"
    and r2: "(let st2 = st1\<lparr>newFingerprints := assign_fingerprint name h (newFingerprints st1)\<rparr> in
        if map_option hash (map_of (fingerprints st2) name) \<noteq> Some h then
          (let meta = getFileMeta e file in
           bind (lift (readFile e file)) (\<lambda>data.
           bind (if \<not> endsWith file ''.html'' \<and> gzip_enabled (gzip options)
                 then bind (lift (gzipAsync e data (gzip_arg (gzip options)))) (\<lambda>z.
                      bind (info (Compressed name (length z))) (\<lambda>_.
                      return (z, meta\<lparr>contentEncoding := Some ''gzip''\<rparr>)))
                 else return (data, meta)) (\<lambda>(payload, meta').
           bind (put svc (s3 options) name (Buffer payload) (Some meta')) (\<lambda>_.
           bind (info (Uploaded name)) (\<lambda>_.
           return st2)))))
        else return st2) w2 = (Inr st', w')"
    by (erule bind_InrE)
  from hh have h: "hash_file e file = Inr h" and w2: "w2 = w" using w1 by simp_all
  then have dg: "digest e file = h" by (simp add: digest_def)
  define st2 where "st2 = st1\<lparr>newFingerprints := assign_fingerprint name h (newFingerprints st1)\<rparr>"
  have rec: "map_option hash (map_of (fingerprints st2) name) = recorded_hash (fingerprints st) name"
    by (simp add: st2_def ms(1) recorded_hash_def[symmetric])
  from r2 have r2': "(if recorded_hash (fingerprints st) name \<noteq> Some h then
          (let meta = getFileMeta e file in
           bind (lift (readFile e file)) (\<lambda>data.
           bind (if \<not> endsWith file ''.html'' \<and> gzip_enabled (gzip options)
                 then bind (lift (gzipAsync e data (gzip_arg (gzip options)))) (\<lambda>z.
                      bind (info (Compressed name (length z))) (\<lambda>_.
                      return (z, meta\<lparr>contentEncoding := Some ''gzip''\<rparr>)))
                 else return (data, meta)) (\<lambda>(payload, meta').
           bind (put svc (s3 options) name (Buffer payload) (Some meta')) (\<lambda>_.
           bind (info (Uploaded name)) (\<lambda>_.
           return st2)))))
        else return st2) w = (Inr st', w')"
    by (simp only: Let_def st2_def[symmetric] rec w2)
  have st': "st' = st2 \<and> events w' = events w @ file_events e options outDir (fingerprints st) file
      \<and> (recorded_hash (fingerprints st) name \<noteq> Some h
           \<longrightarrow> Uploaded name \<in> set (file_events e options outDir (fingerprints st) file))"
  proof (cases "recorded_hash (fingerprints st) name = Some h")
    case True
    with r2' have "return st2 w = (Inr st', w')" by simp
    with True show ?thesis
      by (simp add: file_events_def name_def[symmetric] h)
  next
    case False
    with r2' have r3: "bind (lift (readFile e file)) (\<lambda>data.
           bind (if \<not> endsWith file ''.html'' \<and> gzip_enabled (gzip options)
                 then bind (lift (gzipAsync e data (gzip_arg (gzip options)))) (\<lambda>z.
                      bind (info (Compressed name (length z))) (\<lambda>_.
                      return (z, (getFileMeta e file)\<lparr>contentEncoding := Some ''gzip''\<rparr>)))
                 else return (data, getFileMeta e file)) (\<lambda>(payload, meta').
           bind (put svc (s3 options) name (Buffer payload) (Some meta')) (\<lambda>_.
           bind (info (Uploaded name)) (\<lambda>_.
           return st2)))) w = (Inr st', w')"
      by (simp only: if_True Let_def not_False_eq_True)
    then obtain data w3 where rd: "lift (readFile e file) w = (Inr data, w3)"
      and r4: "bind (if \<not> endsWith file ''.html'' \<and> gzip_enabled (gzip options)
                 then bind (lift (gzipAsync e data (gzip_arg (gzip options)))) (\<lambda>z.
                      bind (info (Compressed name (length z))) (\<lambda>_.
                      return (z, (getFileMeta e file)\<lparr>contentEncoding := Some ''gzip''\<rparr>)))
                 else return (data, getFileMeta e file)) (\<lambda>(payload, meta').
           bind (put svc (s3 options) name (Buffer payload) (Some meta')) (\<lambda>_.
           bind (info (Uploaded name)) (\<lambda>_.
           return st2))) w3 = (Inr st', w')"
      by (erule bind_InrE)
    from rd have data: "readFile e file = Inr data" and w3: "w3 = w" by simp_all
    from r4 obtain pm w4 where pre: "(if \<not> endsWith file ''.html'' \<and> gzip_enabled (gzip options)
                 then bind (lift (gzipAsync e data (gzip_arg (gzip options)))) (\<lambda>z.
                      bind (info (Compressed name (length z))) (\<lambda>_.
                      return (z, (getFileMeta e file)\<lparr>contentEncoding := Some ''gzip''\<rparr>)))
                 else return (data, getFileMeta e file)) w3 = (Inr pm, w4)"
      and r5: "(case pm of (payload, meta') \<Rightarrow>
           bind (put svc (s3 options) name (Buffer payload) (Some meta')) (\<lambda>_.
           bind (info (Uploaded name)) (\<lambda>_.
           return st2))) w4 = (Inr st', w')"
      by (erule bind_InrE)
    obtain payload meta' where pm: "pm = (payload, meta')" by (cases pm)
    from r5 pm obtain u w5 where pt: "put svc (s3 options) name (Buffer payload) (Some meta') w4 = (Inr u, w5)"
      and r6: "bind (info (Uploaded name)) (\<lambda>_. return st2) w5 = (Inr st', w')"
      by (auto elim: bind_InrE)
    from r6 have fin: "st' = st2" "events w' = events w5 @ [Uploaded name]"
      by (auto elim!: bind_InrE)
    note pe = put_events[OF pt]
    show ?thesis
    proof (cases "\<not> endsWith file ''.html'' \<and> gzip_enabled (gzip options)")
      case True
      with pre pm have z: "gzipAsync e data (gzip_arg (gzip options)) = Inr payload"
        and pz: "meta' = (getFileMeta e file)\<lparr>contentEncoding := Some ''gzip''\<rparr>"
        and w4: "events w4 = events w3 @ [Compressed name (length payload)]"
        by (auto elim!: bind_InrE)
      show ?thesis
        using fin pe w4 w3 pz z True False data h
        by (simp add: file_events_def name_def[symmetric] Let_def)
    next
      case F2: False
      with pre pm have pz: "payload = data" "meta' = getFileMeta e file" and w4: "w4 = w3"
        by auto
      show ?thesis
        using fin pe w4 w3 pz F2 False data h
        by (auto simp add: file_events_def name_def[symmetric] Let_def)
    qed
  qed
  show "fingerprints st' =
           AList.map_entry (logical_name e options outDir file) set_marker (fingerprints st)"
    using st' ms(1) by (simp add: st2_def name_def)
  show "newFingerprints st' =
           assign_fingerprint (logical_name e options outDir file) (digest e file) (newFingerprints st)"
    using st' ms(2) dg by (simp add: st2_def name_def)
  show "proto_processed st' =
           (proto_processed st \<or> (logical_name e options outDir file = ''__proto__''
               \<and> map_of (fingerprints st) ''__proto__'' = None))"
    using st' ms(3) by (auto simp add: st2_def name_def)
  show "hash_file e file = Inr (digest e file)" using h dg by simp
  show "events w' = events w @ file_events e options outDir (fingerprints st) file"
    using st' by simp
  show "recorded_hash (fingerprints st) (logical_name e options outDir file) \<noteq> Some (digest e file)
           \<longrightarrow> Uploaded (logical_name e options outDir file)
                 \<in> set (file_events e options outDir (fingerprints st) file)"
    using st' dg by (simp add: name_def)
qed

lemma map_of_map_entry_None [simp]:
  "map_of (AList.map_entry k g xs) k' = None \<longleftrightarrow> map_of xs k' = None"
  by (simp add: AList.map_of_map_entry split: option.splits)

lemma file_events_map_entry [simp]:
  "file_events e options outDir (AList.map_entry k set_marker fps) =
   file_events e options outDir fps"
  by (rule ext, rule file_events_cong) simp

lemma for_files_Inr:
  assumes "for_files e svc options outDir files st w = (Inr st', w')"
  shows "fingerprints st' =
           foldl (\<lambda>fps n. AList.map_entry n set_marker fps) (fingerprints st)
             (map (logical_name e options outDir) files)
       \<and> newFingerprints st' =
           foldl (\<lambda>nf f. assign_fingerprint (logical_name e options outDir f) (digest e f) nf)
             (newFingerprints st) files
       \<and> proto_processed st' =
           (proto_processed st \<or> (''__proto__'' \<in> logical_name e options outDir ` set files
               \<and> map_of (fingerprints st) ''__proto__'' = None))
       \<and> (\<forall>f\<in>set files. hash_file e f = Inr (digest e f))
       \<and> events w' =
           events w @ concat (map (file_events e options outDir (fingerprints st)) files)
       \<and> (\<forall>f\<in>set files.
             recorded_hash (fingerprints st) (logical_name e options outDir f) \<noteq> Some (digest e f)
             \<longrightarrow> Uploaded (logical_name e options outDir f)
                   \<in> set (file_events e options outDir (fingerprints st) f))"
  using assms
proof (induction files arbitrary: st w)
  case Nil
  then show ?case by simp
next
  case (Cons f fs)
  from Cons.prems obtain st1 w1
    where p: "process_file e svc options outDir f st w = (Inr st1, w1)"
      and r: "for_files e svc options outDir fs st1 w1 = (Inr st', w')"
    by (auto elim: bind_InrE)
  note ih = Cons.IH[OF r]
  note pf = process_file_Inr[OF p]
  have 1: "fingerprints st' =
           foldl (\<lambda>fps n. AList.map_entry n set_marker fps) (fingerprints st)
             (map (logical_name e options outDir) (f # fs))"
    using ih pf(1) by simp
  have 2: "newFingerprints st' =
           foldl (\<lambda>nf f. assign_fingerprint (logical_name e options outDir f) (digest e f) nf)
             (newFingerprints st) (f # fs)"
    using ih pf(2) by simp
  have 3: "proto_processed st' =
           (proto_processed st \<or> (''__proto__'' \<in> logical_name e options outDir ` set (f # fs)
               \<and> map_of (fingerprints st) ''__proto__'' = None))"
    using ih pf(1,3) by auto
  have 4: "\<forall>x\<in>set (f # fs). hash_file e x = Inr (digest e x)"
    using ih pf(4) by simp
  have 5: "events w' =
           events w @ concat (map (file_events e options outDir (fingerprints st)) (f # fs))"
    using ih pf(1,5) by simp
  have 6: "\<forall>x\<in>set (f # fs).
             recorded_hash (fingerprints st) (logical_name e options outDir x) \<noteq> Some (digest e x)
             \<longrightarrow> Uploaded (logical_name e options outDir x)
                   \<in> set (file_events e options outDir (fingerprints st) x)"
    using ih pf(1,6) by simp
  from 1 2 3 4 5 6 show ?case by blast
qed

lemma map_entry_distinct:
  "distinct (map fst xs) \<Longrightarrow>
   AList.map_entry k g xs = map (\<lambda>(k', v). (k', if k' = k then g v else v)) xs"
proof (induction xs)
  case Nil
  then show ?case by simp
next
  case (Cons p ps)
  obtain k' v where p: "p = (k', v)" by (cases p)
  show ?case
  proof (cases "k' = k")
    case True
    with Cons.prems p have "k \<notin> fst ` set ps" by simp
    then have "map (\<lambda>(k', v). (k', if k' = k then g v else v)) ps = ps"
      by (induction ps) auto
    with True p show ?thesis by simp
  next
    case False
    with Cons p show ?thesis by simp
  qed
qed

lemma mark_all_distinct:
  "distinct (map fst fps) \<Longrightarrow>
   foldl (\<lambda>fps n. AList.map_entry n set_marker fps) fps ns =
   map (\<lambda>(k, f). (k, if k \<in> set ns then set_marker f else f)) fps"
proof (induction ns arbitrary: fps)
  case Nil
  then show ?case by simp
next
  case (Cons n ns)
  have d: "distinct (map fst (AList.map_entry n set_marker fps))"
    using Cons.prems by (rule AList.distinct_map_entry)
  have idem: "set_marker (set_marker f) = set_marker f" for f
    by (simp add: set_marker_def)
  show ?case
    using Cons.IH[OF d] Cons.prems
    by (auto simp: map_entry_distinct idem)
qed

lemma for_fingerprints_Inr:
  "for_fingerprints svc opts dtag inh fps w = (Inr u, w') \<Longrightarrow>
   events w' = events w @
     stale_events opts dtag (map fst (filter (\<lambda>(k, f). \<not> is_processed inh f) fps))"
proof (induction fps arbitrary: w)
  case Nil
  then show ?case by (simp add: stale_events_def)
next
  case (Cons p ps)
  obtain key f where p: "p = (key, f)" by (cases p)
  show ?case
  proof (cases "is_processed inh f")
    case True
    with Cons p show ?thesis by simp
  next
    case False
    with Cons.prems p obtain w1 u1 where
      m: "(case dtag of Some (k, v) \<Rightarrow> tag svc opts key k v | None \<Rightarrow> del svc opts key) w = (Inr u1, w1)"
      and r: "for_fingerprints svc opts dtag inh ps (w1\<lparr>events := events w1 @ [Deleted key]\<rparr>) = (Inr u, w')"
      by (auto elim!: bind_InrE)
    from m have "events w1 = events w @ [Sent (mutation opts dtag key)]"
      by (auto simp: mutation_def split: option.splits dest: tag_events del_events)
    with Cons.IH[OF r] False p show ?thesis
      by (simp add: stale_events_def)
  qed
qed

lemma distinct_object_of: "distinct (map fst (object_of members))"
proof -
  have "distinct (map fst acc) \<Longrightarrow>
        distinct (map fst (foldl (\<lambda>obj (k, v). AList.update k v obj) acc members))" for acc
    by (induction members arbitrary: acc) (auto simp: AList.distinct_update split: prod.splits)
  then show ?thesis by (simp add: object_of_def)
qed

lemma getJson_Some_distinct:
  "getJson e svc opts key w = (Inr (Some m), w') \<Longrightarrow> distinct (map fst m)"
  by (auto simp: getJson_def bind_def return_def throw_def distinct_object_of
      split: prod.splits sum.splits option.splits)

lemma distinct_loaded_manifest: "distinct (map fst (loaded_manifest e svc options w))"
proof (cases "getJson e svc (s3 options) ''fingerprints.json'' w")
  case (Pair r w')
  then show ?thesis
    by (cases r) (auto simp: loaded_manifest_def dest: getJson_Some_distinct split: option.splits)
qed

lemma writeBundle_Inr:
  assumes "writeBundle e svc options dtag outDir w = (Inr u, w')"
  defines "files \<equiv> listing e outDir"
  defines "loaded \<equiv> loaded_manifest e svc options w"
  defines "names \<equiv> map (logical_name e options outDir) files"
  shows "events w' = events w @
           [Sent (GetObject (bucket (s3 options)) (normalizeKey (s3 options) ''fingerprints.json''))] @
           concat (map (file_events e options outDir loaded) files) @
           stale_events (s3 options) dtag (stale_keys names loaded) @
           [Sent (PutObject (manifest_put e (s3 options) (written_manifest e options outDir files))),
            Deployed]"
    and "\<forall>f\<in>set files. hash_file e f = Inr (digest e f)"
    and "\<forall>f\<in>set files.
           recorded_hash loaded (logical_name e options outDir f) \<noteq> Some (digest e f)
           \<longrightarrow> Uploaded (logical_name e options outDir f)
                 \<in> set (file_events e options outDir loaded f)"
    and "getFiles e outDir = Inr files"
proof -
  from assms(1) obtain fs w0 where
    l0: "lift (getFiles e outDir) w = (Inr fs, w0)"
    and r0: "bind (getJson e svc (s3 options) ''fingerprints.json'') (\<lambda>r.
       let loaded = (case r of None \<Rightarrow> [] | Some m \<Rightarrow> m) in
       bind (for_files e svc options outDir fs
               \<lparr>fingerprints = loaded, newFingerprints = [], proto_processed = False\<rparr>) (\<lambda>st.
       bind (for_fingerprints svc (s3 options) dtag (proto_processed st) (fingerprints st)) (\<lambda>_.
       bind (put svc (s3 options) ''fingerprints.json''
               (Text (JSON_stringify e (newFingerprints st))) (Some manifest_options)) (\<lambda>_.
       info Deployed)))) w0 = (Inr u, w')"
    unfolding writeBundle_def by (erule bind_InrE)
  from l0 have gf: "getFiles e outDir = Inr fs" and w0: "w0 = w" by simp_all
  then have fsf: "fs = files" by (simp add: files_def listing_def)
  from r0 obtain r w1 where
    g: "getJson e svc (s3 options) ''fingerprints.json'' w = (Inr r, w1)"
    and r1: "bind (for_files e svc options outDir files
                \<lparr>fingerprints = (case r of None \<Rightarrow> [] | Some m \<Rightarrow> m), newFingerprints = [],
                 proto_processed = False\<rparr>) (\<lambda>st.
        bind (for_fingerprints svc (s3 options) dtag (proto_processed st) (fingerprints st)) (\<lambda>_.
        bind (put svc (s3 options) ''fingerprints.json''
                (Text (JSON_stringify e (newFingerprints st))) (Some manifest_options)) (\<lambda>_.
        info Deployed))) w1 = (Inr u, w')"
    unfolding Let_def fsf w0 by (erule bind_InrE)
  have ld: "(case r of None \<Rightarrow> [] | Some m \<Rightarrow> m) = loaded"
    using g by (simp add: loaded_def loaded_manifest_def split: option.splits)
  define st0 where "st0 = \<lparr>fingerprints = loaded, newFingerprints = [], proto_processed = False\<rparr>"
  from r1 obtain st w2 where
    ff: "for_files e svc options outDir files st0 w1 = (Inr st, w2)"
    and r2: "bind (for_fingerprints svc (s3 options) dtag (proto_processed st) (fingerprints st)) (\<lambda>_.
        bind (put svc (s3 options) ''fingerprints.json''
                (Text (JSON_stringify e (newFingerprints st))) (Some manifest_options)) (\<lambda>_.
        info Deployed)) w2 = (Inr u, w')"
    unfolding ld st0_def by (erule bind_InrE)
  from r2 obtain u1 w3 where
    fp: "for_fingerprints svc (s3 options) dtag (proto_processed st) (fingerprints st) w2 = (Inr u1, w3)"
    and r3: "bind (put svc (s3 options) ''fingerprints.json''
                (Text (JSON_stringify e (newFingerprints st))) (Some manifest_options)) (\<lambda>_.
        info Deployed) w3 = (Inr u, w')"
    by (erule bind_InrE)
  from r3 obtain u2 w4 where
    pt: "put svc (s3 options) ''fingerprints.json''
                (Text (JSON_stringify e (newFingerprints st))) (Some manifest_options) w3 = (Inr u2, w4)"
    and r4: "info Deployed w4 = (Inr u, w')"
    by (erule bind_InrE)
  note fs = for_files_Inr[OF ff]
  have dl: "distinct (map fst loaded)"
    unfolding loaded_def by (rule distinct_loaded_manifest)
  have e1: "events w1 = events w @
      [Sent (GetObject (bucket (s3 options)) (normalizeKey (s3 options) ''fingerprints.json''))]"
    using g by (rule getJson_events)
  have e2: "events w2 = events w1 @ concat (map (file_events e options outDir loaded) files)"
    using fs by (simp add: st0_def)
  have nf: "newFingerprints st = written_manifest e options outDir files"
    using fs by (simp add: st0_def written_manifest_def)
  have pol: "proto_processed st = proto_polluted names loaded"
    using fs by (simp add: st0_def proto_polluted_def names_def)
  have fps: "fingerprints st =
      map (\<lambda>(k, f). (k, if k \<in> set names then set_marker f else f)) loaded"
    using fs mark_all_distinct[OF dl, of names] by (simp add: st0_def names_def)
  have stale: "map fst (filter (\<lambda>(k, f). \<not> is_processed (proto_processed st) f) (fingerprints st))
      = stale_keys names loaded"
  proof -
    have "map fst (filter (\<lambda>(k, f). \<not> is_processed inh f)
            (map (\<lambda>(k, f). (k, if k \<in> set names then set_marker f else f)) xs)) =
          map fst (filter (\<lambda>(k, f). k \<notin> set names \<and> \<not> is_processed inh f) xs)" for inh xs
      by (induction xs) (auto simp: is_processed_def set_marker_def split: if_splits)
    then show ?thesis
      unfolding fps pol stale_keys_def by simp
  qed
  have e3: "events w3 = events w2 @ stale_events (s3 options) dtag (stale_keys names loaded)"
    using for_fingerprints_Inr[OF fp] stale by simp
  have e4: "events w4 = events w3 @
      [Sent (PutObject (manifest_put e (s3 options) (written_manifest e options outDir files)))]"
    using put_events[OF pt] by (simp add: manifest_put_def nf)
  have e5: "events w' = events w4 @ [Deployed]"
    using r4 by auto
  show "events w' = events w @
           [Sent (GetObject (bucket (s3 options)) (normalizeKey (s3 options) ''fingerprints.json''))] @
           concat (map (file_events e options outDir loaded) files) @
           stale_events (s3 options) dtag (stale_keys names loaded) @
           [Sent (PutObject (manifest_put e (s3 options) (written_manifest e options outDir files))),
            Deployed]"
    by (simp add: e1 e2 e3 e4 e5)
  show "\<forall>f\<in>set files. hash_file e f = Inr (digest e f)"
    using fs by simp
  show "\<forall>f\<in>set files.
           recorded_hash loaded (logical_name e options outDir f) \<noteq> Some (digest e f)
           \<longrightarrow> Uploaded (logical_name e options outDir f)
                 \<in> set (file_events e options outDir loaded f)"
    using fs by (simp add: st0_def)
  show "getFiles e outDir = Inr files"
    using gf fsf by simp
qed

lemma bind_cases:
  assumes "bind m f w = (r, w')"
  obtains (fail) x where "m w = (Inl x, w')" "r = Inl x"
        | (ok) a w1 where "m w = (Inr a, w1)" "f a w1 = (r, w')"
  using assms by (auto simp: bind_def split: prod.splits sum.splits)

lemma process_file_prefix:
  assumes "process_file e svc options outDir file st w = (r, w')"
  shows "\<exists>n. events w' = events w @ take n (file_events e options outDir (fingerprints st) file)"
proof (cases r)
  case (Inr st')
  with assms have "events w' = events w @ file_events e options outDir (fingerprints st) file"
    by (auto dest: process_file_Inr(5))
  then have "events w' = events w @
      take (length (file_events e options outDir (fingerprints st) file))
        (file_events e options outDir (fingerprints st) file)" by simp
  then show ?thesis by blast
next
  case (Inl x)
  define name where "name = logical_name e options outDir file"
  define F where "F = file_events e options outDir (fingerprints st) file"
  have goal0: "w' = w \<Longrightarrow> ?thesis"
    by (rule exI[of _ 0]) simp
  from assms show ?thesis
    unfolding process_file_def Let_def name_def[symmetric]
  proof (cases rule: bind_cases)
    case (fail x)
    then show ?thesis using goal0 by simp
  next
    case (ok st1 w1)
    then have m: "mark_processed name st = Inr st1" and w1: "w1 = w" by simp_all
    note ms = mark_processed_Inr[OF m]
    from ok(2) show ?thesis
    proof (cases rule: bind_cases)
      case (fail x)
      then show ?thesis using goal0 w1 by simp
    next
      case (ok h w2)
      then have h: "hash_file e file = Inr h" and w2: "w2 = w" using w1 by simp_all
      have rec: "map_option hash (map_of (fingerprints st1) name) = recorded_hash (fingerprints st) name"
        by (simp add: ms(1) recorded_hash_def[symmetric])
      show ?thesis
      proof (cases "recorded_hash (fingerprints st) name = Some h")
        case True
        with ok(2) rec w2 show ?thesis using goal0 by simp
      next
        case False
        with ok(2) rec have r3: "bind (lift (readFile e file)) (\<lambda>data.
           bind (if \<not> endsWith file ''.html'' \<and> gzip_enabled (gzip options)
                 then bind (lift (gzipAsync e data (gzip_arg (gzip options)))) (\<lambda>z.
                      bind (info (Compressed name (length z))) (\<lambda>_.
                      return (z, (getFileMeta e file)\<lparr>contentEncoding := Some ''gzip''\<rparr>)))
                 else return (data, getFileMeta e file)) (\<lambda>(payload, meta').
           bind (put svc (s3 options) name (Buffer payload) (Some meta')) (\<lambda>_.
           bind (info (Uploaded name)) (\<lambda>_.
           return (st1\<lparr>newFingerprints := assign_fingerprint name h (newFingerprints st1)\<rparr>))))) w
             = (r, w')"
          by (simp add: w2)
        from r3 show ?thesis
        proof (cases rule: bind_cases)
          case (fail x)
          then show ?thesis using goal0 by simp
        next
          case (ok data w3)
          then have data: "readFile e file = Inr data" and w3: "w3 = w" by simp_all
          from ok(2) show ?thesis
          proof (cases rule: bind_cases)
            case (fail x)
            then have "w' = w"
              using w3 by (auto elim!: bind_cases split: if_splits)
            then show ?thesis by (rule goal0)
          next
            case (ok pm w4)
            obtain payload meta' where pm: "pm = (payload, meta')" by (cases pm)
            have pre: "\<exists>c. events w4 = events w @ c \<and>
               F = c @ [Sent (PutObject (putObject_input (s3 options) name (Buffer payload) (Some meta'))),
                        Uploaded name]"
              using ok(1) pm w3 False data h
              by (auto simp: F_def file_events_def name_def[symmetric] Let_def
                  elim!: bind_cases split: if_splits)
            then obtain c where c: "events w4 = events w @ c"
              and Fc: "F = c @ [Sent (PutObject (putObject_input (s3 options) name (Buffer payload) (Some meta'))),
                        Uploaded name]" by blast
            from ok(2) pm have "bind (put svc (s3 options) name (Buffer payload) (Some meta')) (\<lambda>_.
                bind (info (Uploaded name)) (\<lambda>_.
                return (st1\<lparr>newFingerprints := assign_fingerprint name h (newFingerprints st1)\<rparr>))) w4
                 = (r, w')" by simp
            then show ?thesis
            proof (cases rule: bind_cases)
              case (fail x)
              from put_events[OF fail(1)] c Fc
              have "events w' = events w @ take (length c + 1) F" by simp
              then show ?thesis unfolding F_def by blast
            next
              case (ok u w5)
              with Inl show ?thesis by (auto elim!: bind_cases)
            qed
          qed
        qed
      qed
    qed
  qed
qed

lemma for_files_prefix:
  "for_files e svc options outDir files st w = (r, w') \<Longrightarrow>
   \<exists>n. events w' = events w @
          take n (concat (map (file_events e options outDir (fingerprints st)) files))"
proof (induction files arbitrary: st w)
  case Nil
  then show ?case by simp
next
  case (Cons f fs)
  from Cons.prems have "bind (process_file e svc options outDir f st)
       (\<lambda>st'. for_files e svc options outDir fs st') w = (r, w')" by simp
  then show ?case
  proof (cases rule: bind_cases)
    case (fail x)
    from process_file_prefix[OF fail(1)] obtain n where
      n: "events w' = events w @ take n (file_events e options outDir (fingerprints st) f)" by blast
    have "take n (file_events e options outDir (fingerprints st) f) =
          take (min n (length (file_events e options outDir (fingerprints st) f)))
            (concat (map (file_events e options outDir (fingerprints st)) (f # fs)))"
      by (cases "n \<le> length (file_events e options outDir (fingerprints st) f)")
         (simp_all add: min_def)
    with n show ?thesis by metis
  next
    case (ok st1 w1)
    note pf = process_file_Inr[OF ok(1)]
    from Cons.IH[OF ok(2)] obtain n where
      n: "events w' = events w1 @
            take n (concat (map (file_events e options outDir (fingerprints st1)) fs))" by blast
    have "events w' = events w @
        take (length (file_events e options outDir (fingerprints st) f) + n)
          (concat (map (file_events e options outDir (fingerprints st)) (f # fs)))"
      using n pf(1,5) by simp
    then show ?thesis by blast
  qed
qed

lemma file_events_Nil:
  "hash_file e file = Inr h \<Longrightarrow>
   recorded_hash fps (logical_name e options outDir file) = Some h \<Longrightarrow>
   file_events e options outDir fps file = []"
  by (simp add: file_events_def)

lemma file_events_upload:
  assumes "ev \<in> set (file_events e options outDir fps file)"
  defines "name \<equiv> logical_name e options outDir file"
  shows "\<exists>data payload meta.
           readFile e file = Inr data
         \<and> hash_file e file = Inr (digest e file)
         \<and> recorded_hash fps name \<noteq> Some (digest e file)
         \<and> (if \<not> endsWith file ''.html'' \<and> gzip_enabled (gzip options)
            then gzipAsync e data (gzip_arg (gzip options)) = Inr payload
               \<and> meta = (getFileMeta e file)\<lparr>contentEncoding := Some ''gzip''\<rparr>
            else payload = data \<and> meta = getFileMeta e file)
         \<and> file_events e options outDir fps file =
             (if \<not> endsWith file ''.html'' \<and> gzip_enabled (gzip options)
              then [Compressed name (length payload)] else []) @
             [Sent (PutObject (putObject_input (s3 options) name (Buffer payload) (Some meta))),
              Uploaded name]"
  using assms(1) unfolding name_def
  by (auto simp: file_events_def Let_def digest_def split: sum.splits if_splits)

lemma sent_append [simp]: "sent (xs @ ys) = sent xs @ sent ys"
  by (induction xs rule: sent.induct) auto

lemma puts_append [simp]: "puts (xs @ ys) = puts xs @ puts ys"
  by (induction xs rule: puts.induct) auto

lemma puts_sent: "puts evs = [r. PutObject r \<leftarrow> sent evs]"
  by (induction evs rule: puts.induct) auto

lemma mem_puts: "r \<in> set (puts evs) \<longleftrightarrow> Sent (PutObject r) \<in> set evs"
  by (induction evs rule: puts.induct) auto

lemma mem_sent: "c \<in> set (sent evs) \<longleftrightarrow> Sent c \<in> set evs"
  by (induction evs rule: sent.induct) auto

lemma puts_mutation [simp]: "puts (Sent (mutation opts dtag key) # evs) = puts evs"
  by (simp add: mutation_def split: option.splits)

lemma puts_stale_events [simp]: "puts (stale_events opts dtag keys) = []"
  by (induction keys) (auto simp: stale_events_def)

lemma sent_stale_events [simp]:
  "sent (stale_events opts dtag keys) = map (mutation opts dtag) keys"
  by (induction keys) (auto simp: stale_events_def)

lemma new_events_append [simp]: "events w' = events w @ evs \<Longrightarrow> new_events w w' = evs"
  by (simp add: new_events_def)

lemma assign_fingerprint_map_of:
  "map_of (assign_fingerprint n h nf) =
     (if n = ''__proto__'' then map_of nf
      else (map_of nf)(n \<mapsto> \<lparr>hash = h, processed = None\<rparr>))"
  by (simp add: assign_fingerprint_def AList.update_conv')

lemma written_manifest_snoc:
  "written_manifest e options outDir (fs @ [f]) =
     assign_fingerprint (logical_name e options outDir f) (digest e f)
       (written_manifest e options outDir fs)"
  by (simp add: written_manifest_def)

lemma map_of_written_manifest:
  "map_of (written_manifest e options outDir files) n =
     (if n = ''__proto__'' then None
      else map_of (rev (map (manifest_entry e options outDir) files)) n)"
proof (induction files arbitrary: n rule: rev_induct)
  case Nil
  then show ?case by (simp add: written_manifest_def)
next
  case (snoc f fs)
  then show ?case
    unfolding manifest_entry_def
    by (simp add: written_manifest_snoc assign_fingerprint_map_of)
qed

lemma distinct_written_manifest:
  "distinct (map fst (written_manifest e options outDir files))"
proof (induction files rule: rev_induct)
  case Nil
  then show ?case by (simp add: written_manifest_def)
next
  case (snoc f fs)
  then show ?case
    by (simp add: written_manifest_snoc assign_fingerprint_def AList.distinct_update)
qed

lemma keys_written_manifest:
  "fst ` set (written_manifest e options outDir files) =
     logical_name e options outDir ` set files - {''__proto__''}"
proof (induction files rule: rev_induct)
  case Nil
  then show ?case by (simp add: written_manifest_def)
next
  case (snoc f fs)
  then show ?case
    by (auto simp: written_manifest_snoc assign_fingerprint_def AList.dom_update)
qed

lemma processed_written_manifest:
  "(k, v) \<in> set (written_manifest e options outDir files) \<Longrightarrow> processed v = None"
proof -
  assume a: "(k, v) \<in> set (written_manifest e options outDir files)"
  then have "map_of (written_manifest e options outDir files) k = Some v"
    using distinct_written_manifest by (simp add: map_of_is_SomeI)
  then have "map_of (rev (map (manifest_entry e options outDir) files)) k = Some v"
    by (simp add: map_of_written_manifest split: if_splits)
  then have "(k, v) \<in> set (map (manifest_entry e options outDir) files)"
    by (auto dest: map_of_SomeD)
  then show ?thesis by (auto simp: manifest_entry_def)
qed

lemma for_fingerprints_puts:
  "for_fingerprints svc opts dtag inh fps w = (r, w') \<Longrightarrow>
   \<exists>evs. events w' = events w @ evs \<and> puts evs = []"
proof (induction fps arbitrary: w)
  case Nil
  then show ?case by simp
next
  case (Cons p ps)
  obtain key f where p: "p = (key, f)" by (cases p)
  show ?case
  proof (cases "is_processed inh f")
    case True
    with Cons p show ?thesis by simp
  next
    case False
    with Cons.prems p have "bind (case dtag of
                Some (k, v) \<Rightarrow> tag svc opts key k v
              | None \<Rightarrow> del svc opts key) (\<lambda>_.
        bind (info (Deleted key)) (\<lambda>_.
        for_fingerprints svc opts dtag inh ps)) w = (r, w')" by simp
    then show ?thesis
    proof (cases rule: bind_cases)
      case (fail x)
      then have "events w' = events w @ [Sent (mutation opts dtag key)]"
        by (auto simp: mutation_def split: option.splits dest: tag_events del_events)
      moreover have "puts [Sent (mutation opts dtag key)] = []"
        by simp
      ultimately show ?thesis by blast
    next
      case (ok a w1)
      then have e1: "events w1 = events w @ [Sent (mutation opts dtag key)]"
        by (auto simp: mutation_def split: option.splits dest: tag_events del_events)
      have p1: "puts [Sent (mutation opts dtag key)] = []"
        by simp
      from ok(2) have "for_fingerprints svc opts dtag inh ps
          (w1\<lparr>events := events w1 @ [Deleted key]\<rparr>) = (r, w')"
        by (auto elim!: bind_cases)
      from Cons.IH[OF this] obtain evs where
        "events w' = events w1 @ [Deleted key] @ evs" "puts evs = []" by auto
      with e1 p1 have "events w' = events w @ ([Sent (mutation opts dtag key), Deleted key] @ evs)
          \<and> puts ([Sent (mutation opts dtag key), Deleted key] @ evs) = []"
        by simp
      then show ?thesis by blast
    qed
  qed
qed

lemma writeBundle_puts:
  assumes "writeBundle e svc options dtag outDir w = (res, w')"
    and "r \<in> set (puts (new_events w w'))"
  shows "(\<exists>f\<in>set (listing e outDir).
            Sent (PutObject r) \<in> set (file_events e options outDir (loaded_manifest e svc options w) f))
       \<or> r = manifest_put e (s3 options) (written_manifest e options outDir (listing e outDir))"
proof -
  define files where "files = listing e outDir"
  define loaded where "loaded = loaded_manifest e svc options w"
  define F where "F = concat (map (file_events e options outDir loaded) files)"
  have inF: "x \<in> set (puts (take n F)) \<Longrightarrow>
      \<exists>f\<in>set files. Sent (PutObject x) \<in> set (file_events e options outDir loaded f)" for x n
    by (auto simp: mem_puts F_def dest!: in_set_takeD)
  have listed: "bind (getJson e svc (s3 options) ''fingerprints.json'') (\<lambda>r.
        let loaded = (case r of None \<Rightarrow> [] | Some m \<Rightarrow> m) in
        bind (for_files e svc options outDir files
                \<lparr>fingerprints = loaded, newFingerprints = [], proto_processed = False\<rparr>) (\<lambda>st.
        bind (for_fingerprints svc (s3 options) dtag (proto_processed st) (fingerprints st)) (\<lambda>_.
        bind (put svc (s3 options) ''fingerprints.json''
                (Text (JSON_stringify e (newFingerprints st))) (Some manifest_options)) (\<lambda>_.
        info Deployed)))) w = (res, w')"
  proof (cases "getFiles e outDir")
    case (Inl x)
    with assms(1) have "w' = w" by (simp add: writeBundle_def bind_def lift_def)
    with assms(2) show ?thesis by (simp add: new_events_def)
  next
    case (Inr fs)
    with assms(1) show ?thesis
      by (simp add: writeBundle_def bind_def lift_def files_def listing_def)
  qed
  then have "(\<exists>f\<in>set files. Sent (PutObject r) \<in> set (file_events e options outDir loaded f))
       \<or> r = manifest_put e (s3 options) (written_manifest e options outDir files)"
  proof (cases rule: bind_cases)
    case (fail x)
    from getJson_events[OF fail(1)] assms(2) show ?thesis by simp
  next
    case (ok j w1)
    have e1: "events w1 = events w @
      [Sent (GetObject (bucket (s3 options)) (normalizeKey (s3 options) ''fingerprints.json''))]"
      using ok(1) by (rule getJson_events)
    have ld: "(case j of None \<Rightarrow> [] | Some m \<Rightarrow> m) = loaded"
      using ok(1) by (simp add: loaded_def loaded_manifest_def split: option.splits)
    define st0 where "st0 = \<lparr>fingerprints = loaded, newFingerprints = [], proto_processed = False\<rparr>"
    from ok(2) have "bind (for_files e svc options outDir files st0) (\<lambda>st.
        bind (for_fingerprints svc (s3 options) dtag (proto_processed st) (fingerprints st)) (\<lambda>_.
        bind (put svc (s3 options) ''fingerprints.json''
                (Text (JSON_stringify e (newFingerprints st))) (Some manifest_options)) (\<lambda>_.
        info Deployed))) w1 = (res, w')"
      by (simp add: Let_def ld st0_def)
    then show ?thesis
    proof (cases rule: bind_cases)
      case (fail x)
      from for_files_prefix[OF fail(1)] obtain n where
        "events w' = events w1 @ take n F" by (auto simp: F_def st0_def)
      with e1 assms(2) have "r \<in> set (puts (take n F))" by simp
      then show ?thesis using inF by blast
    next
      case (ok st w2)
      note fs = for_files_Inr[OF ok(1)]
      have e2: "events w2 = events w1 @ F" using fs by (simp add: st0_def F_def)
      have nf: "newFingerprints st = written_manifest e options outDir files"
        using fs by (simp add: st0_def written_manifest_def)
      have inF': "x \<in> set (puts F) \<Longrightarrow>
        \<exists>f\<in>set files. Sent (PutObject x) \<in> set (file_events e options outDir loaded f)" for x
        using inF[of x "length F"] by simp
      from ok(2) show ?thesis
      proof (cases rule: bind_cases)
        case (fail x)
        from for_fingerprints_puts[OF fail(1)] obtain evs where
          "events w' = events w2 @ evs" "puts evs = []" by blast
        with e1 e2 assms(2) have "r \<in> set (puts F)" by simp
        then show ?thesis using inF' by blast
      next
        case (ok u w3)
        from for_fingerprints_puts[OF ok(1)] obtain evs where
          e3: "events w3 = events w2 @ evs" and pe: "puts evs = []" by blast
        from ok(2) obtain rp w4 where
          pt: "put svc (s3 options) ''fingerprints.json''
                (Text (JSON_stringify e (newFingerprints st))) (Some manifest_options) w3 = (rp, w4)"
          and fin: "events w' = events w4 \<or> events w' = events w4 @ [Deployed]"
          by (auto elim!: bind_cases)
        have e4: "events w4 = events w3 @
          [Sent (PutObject (manifest_put e (s3 options) (written_manifest e options outDir files)))]"
          using put_events[OF pt] by (simp add: manifest_put_def nf)
        from fin e1 e2 e3 e4 pe assms(2)
        have "r \<in> set (puts F)
            \<or> r = manifest_put e (s3 options) (written_manifest e options outDir files)"
          by auto
        then show ?thesis using inF' by blast
      qed
    qed
  qed
  then show ?thesis by (simp add: files_def loaded_def)
qed

lemma changed_recorded_hash:
  "changed e options outDir loaded file \<longleftrightarrow>
   recorded_hash loaded (logical_name e options outDir file) \<noteq> Some (digest e file)"
  by (auto simp: changed_def recorded_hash_def split: option.splits)

lemma digest_readFile:
  "hash_file e f = Inr (digest e f) \<Longrightarrow>
   \<exists>data. readFile e f = Inr data \<and> digest e f = sha256_hex e data"
  by (auto simp: hash_file_def split: sum.splits)

lemma mutations_append [simp]: "mutations (xs @ ys) = mutations xs @ mutations ys"
  by (induction xs rule: mutations.induct) auto

lemma mutations_mutation [simp]:
  "mutations (Sent (mutation opts dtag key) # evs) = mutation opts dtag key # mutations evs"
  by (simp add: mutation_def split: option.splits)

lemma mutations_stale_events [simp]:
  "mutations (stale_events opts dtag keys) = map (mutation opts dtag) keys"
  by (induction keys) (auto simp: stale_events_def)

lemma mutations_file_events [simp]: "mutations (file_events e options outDir fps f) = []"
  by (auto simp: file_events_def Let_def split: sum.splits)

lemma mutations_concat_file_events [simp]:
  "mutations (concat (map (file_events e options outDir fps) fs)) = []"
  by (induction fs) auto

lemma puts_file_events_acl:
  "r \<in> set (puts (concat (map (file_events e options outDir fps) fs))) \<Longrightarrow>
   ACL r = Some acl_public_read \<and> (\<exists>f\<in>set fs. Key r = normalizeKey (s3 options) (logical_name e options outDir f))"
proof -
  assume "r \<in> set (puts (concat (map (file_events e options outDir fps) fs)))"
  then obtain f where f: "f \<in> set fs"
    and m: "Sent (PutObject r) \<in> set (file_events e options outDir fps f)"
    by (auto simp: mem_puts)
  from m file_events_upload[OF m] have "ACL r = Some acl_public_read
      \<and> Key r = normalizeKey (s3 options) (logical_name e options outDir f)"
    by (auto simp: putObject_input_def getFileMeta_def split: if_splits)
  with f show ?thesis by blast
qed

lemma stale_keys_clean:
  "''__proto__'' \<notin> set names \<Longrightarrow>
   stale_keys names loaded =
     map fst (filter (\<lambda>(k, fp). k \<notin> set names \<and> processed fp \<noteq> Some True) loaded)"
proof -
  assume "''__proto__'' \<notin> set names"
  then have "\<not> proto_polluted names loaded" by (simp add: proto_polluted_def)
  moreover have "is_processed False fp \<longleftrightarrow> processed fp = Some True" for fp
    by (cases "processed fp") (auto simp: is_processed_def)
  ultimately show ?thesis by (simp add: stale_keys_def)
qed

lemma compressed_append [simp]: "compressed (xs @ ys) = compressed xs @ compressed ys"
  by (induction xs rule: compressed.induct) auto

lemma compressed_stale_events [simp]: "compressed (stale_events opts dtag keys) = []"
  by (induction keys) (auto simp: stale_events_def)

lemma file_events_summary:
  assumes "hash_file e f = Inr (digest e f)"
    and "changed e options outDir fps f \<longrightarrow>
           Uploaded (logical_name e options outDir f) \<in> set (file_events e options outDir fps f)"
  shows "map Key (puts (file_events e options outDir fps f)) =
           (if changed e options outDir fps f
            then [normalizeKey (s3 options) (logical_name e options outDir f)] else [])"
    and "compressed (file_events e options outDir fps f) =
           (if changed e options outDir fps f \<and> \<not> endsWith f ''.html'' \<and> gzip_enabled (gzip options)
            then [logical_name e options outDir f] else [])"
proof -
  show "map Key (puts (file_events e options outDir fps f)) =
           (if changed e options outDir fps f
            then [normalizeKey (s3 options) (logical_name e options outDir f)] else [])"
  proof (cases "changed e options outDir fps f")
    case True
    with assms(2) have "Uploaded (logical_name e options outDir f)
        \<in> set (file_events e options outDir fps f)" by simp
    from file_events_upload[OF this] True show ?thesis
      by (auto simp: putObject_input_def split: if_splits)
  next
    case False
    with assms(1) have "file_events e options outDir fps f = []"
      by (auto simp: changed_recorded_hash intro: file_events_Nil)
    with False show ?thesis by simp
  qed
  show "compressed (file_events e options outDir fps f) =
           (if changed e options outDir fps f \<and> \<not> endsWith f ''.html'' \<and> gzip_enabled (gzip options)
            then [logical_name e options outDir f] else [])"
  proof (cases "changed e options outDir fps f")
    case True
    with assms(2) have "Uploaded (logical_name e options outDir f)
        \<in> set (file_events e options outDir fps f)" by simp
    from file_events_upload[OF this] True show ?thesis
      by (auto split: if_splits)
  next
    case False
    with assms(1) have "file_events e options outDir fps f = []"
      by (auto simp: changed_recorded_hash intro: file_events_Nil)
    with False show ?thesis by simp
  qed
qed

lemma concat_file_events_summary:
  assumes "\<forall>f\<in>set fs. hash_file e f = Inr (digest e f)"
    and "\<forall>f\<in>set fs. changed e options outDir fps f \<longrightarrow>
           Uploaded (logical_name e options outDir f) \<in> set (file_events e options outDir fps f)"
  shows "map Key (puts (concat (map (file_events e options outDir fps) fs))) =
           map (\<lambda>f. normalizeKey (s3 options) (logical_name e options outDir f))
             (filter (changed e options outDir fps) fs)"
    and "compressed (concat (map (file_events e options outDir fps) fs)) =
           map (logical_name e options outDir)
             (filter (\<lambda>f. changed e options outDir fps f \<and> \<not> endsWith f ''.html''
                           \<and> gzip_enabled (gzip options)) fs)"
  using assms
  by (induction fs) (simp_all add: file_events_summary)

lemma pair_fst: "fst p = a \<Longrightarrow> p = (a, snd p)"
  by (cases p) simp

section \<open>The client\<close>

subsection \<open>C5: what a fetch returns\<close>

text \<open>
  C5. \<open>get\<close> returns the absent result exactly when the service fails the \<open>GetObject\<close>
  with an error named \<^verbatim>\<open>NoSuchKey\<close> or \<^verbatim>\<open>AccessDenied\<close>; every other failure, also that of
  a response without a body, is passed on. \<open>getJson\<close> is absent exactly when \<open>get\<close> is,
  passes a failure of \<open>get\<close> on, and fails with a \<^verbatim>\<open>SyntaxError\<close> when the bytes do not
  parse. A manifest that does not parse aborts \<open>writeBundle\<close> with that error before any
  \<open>PutObject\<close> is sent: it is never replaced by the empty map.
\<close>

theorem fetch_absent_or_fatal:
  fixes svc :: "'s S3"
  defines "answer opts key w \<equiv> fst (svc (remote w) (GetObject (bucket opts) (normalizeKey opts key)))"
  shows "(fst (get svc opts key w) = Inr None \<longleftrightarrow>
            (\<exists>err. answer opts key w = Inl err \<and>
                   (error_named err ''NoSuchKey'' \<or> error_named err ''AccessDenied'')))
       \<and> (\<forall>err. answer opts key w = Inl err \<and> \<not> error_named err ''NoSuchKey''
                 \<and> \<not> error_named err ''AccessDenied'' \<longrightarrow> fst (get svc opts key w) = Inl err)
       \<and> (answer opts key w = Inr None \<longrightarrow> fst (get svc opts key w) = Inl (JsError ''TypeError''))
       \<and> (\<forall>b. answer opts key w = Inr (Some b) \<longrightarrow> fst (get svc opts key w) = Inr (Some b))
       \<and> (fst (getJson e svc opts key w) = Inr None \<longleftrightarrow> fst (get svc opts key w) = Inr None)
       \<and> (\<forall>x. fst (get svc opts key w) = Inl x \<longrightarrow> fst (getJson e svc opts key w) = Inl x)
       \<and> (\<forall>b. fst (get svc opts key w) = Inr (Some b) \<longrightarrow>
             fst (getJson e svc opts key w) =
               (case JSON_parse e b of
                  None \<Rightarrow> Inl (JsError ''SyntaxError'')
                | Some members \<Rightarrow> Inr (Some (object_of members))))
       \<and> (\<forall>b files. getFiles e outDir = Inr files
                 \<and> fst (get svc (s3 options) ''fingerprints.json'' w) = Inr (Some b)
                 \<and> JSON_parse e b = None \<longrightarrow>
             fst (writeBundle e svc options dtag outDir w) = Inl (JsError ''SyntaxError'')
             \<and> puts (new_events w (snd (writeBundle e svc options dtag outDir w))) = [])"
proof -
  have g: "fst (get svc opts key w) =
      (case answer opts key w of
         Inr (Some b) \<Rightarrow> Inr (Some b)
       | Inr None \<Rightarrow> Inl (JsError ''TypeError'')
       | Inl err \<Rightarrow> if error_named err ''NoSuchKey'' \<or> error_named err ''AccessDenied''
                    then Inr None else Inl err)" for opts key
    by (auto simp: get_def get_catch_def send_def answer_def return_def throw_def
        split: prod.splits sum.splits option.splits)
  have j: "fst (getJson e svc opts key w) =
      (case fst (get svc opts key w) of
         Inl x \<Rightarrow> Inl x
       | Inr None \<Rightarrow> Inr None
       | Inr (Some b) \<Rightarrow>
           (case JSON_parse e b of
              None \<Rightarrow> Inl (JsError ''SyntaxError'')
            | Some members \<Rightarrow> Inr (Some (object_of members))))" for opts key
    by (auto simp: getJson_def bind_def return_def throw_def
        split: prod.splits sum.splits option.splits)
  have wb: "fst (writeBundle e svc options dtag outDir w) = Inl (JsError ''SyntaxError'')
             \<and> puts (new_events w (snd (writeBundle e svc options dtag outDir w))) = []"
    if "getFiles e outDir = Inr files"
      "fst (get svc (s3 options) ''fingerprints.json'' w) = Inr (Some b)" "JSON_parse e b = None"
    for b files
  proof -
    obtain r w1 where gj: "getJson e svc (s3 options) ''fingerprints.json'' w = (r, w1)"
      by (cases "getJson e svc (s3 options) ''fingerprints.json'' w")
    with that j[of "s3 options" "''fingerprints.json''"] have r: "r = Inl (JsError ''SyntaxError'')"
      by simp
    have "writeBundle e svc options dtag outDir w = (Inl (JsError ''SyntaxError''), w1)"
      unfolding writeBundle_def using gj r that(1) by (simp add: bind_def lift_def)
    moreover have "new_events w w1 =
      [Sent (GetObject (bucket (s3 options)) (normalizeKey (s3 options) ''fingerprints.json''))]"
      using getJson_events[OF gj] by (simp add: new_events_def)
    ultimately show ?thesis by simp
  qed
  have c1: "fst (get svc opts key w) = Inr None \<longleftrightarrow>
            (\<exists>err. answer opts key w = Inl err \<and>
                   (error_named err ''NoSuchKey'' \<or> error_named err ''AccessDenied''))"
    unfolding g by (auto split: sum.splits option.splits)
  have c2: "\<forall>err. answer opts key w = Inl err \<and> \<not> error_named err ''NoSuchKey''
                 \<and> \<not> error_named err ''AccessDenied'' \<longrightarrow> fst (get svc opts key w) = Inl err"
    unfolding g by simp
  have c3: "answer opts key w = Inr None \<longrightarrow> fst (get svc opts key w) = Inl (JsError ''TypeError'')"
    unfolding g by simp
  have c4: "\<forall>b. answer opts key w = Inr (Some b) \<longrightarrow> fst (get svc opts key w) = Inr (Some b)"
    unfolding g by simp
  have c5: "fst (getJson e svc opts key w) = Inr None \<longleftrightarrow> fst (get svc opts key w) = Inr None"
    unfolding j by (auto split: sum.splits option.splits)
  have c6: "\<forall>x. fst (get svc opts key w) = Inl x \<longrightarrow> fst (getJson e svc opts key w) = Inl x"
    unfolding j by simp
  have c7: "\<forall>b. fst (get svc opts key w) = Inr (Some b) \<longrightarrow>
             fst (getJson e svc opts key w) =
               (case JSON_parse e b of
                  None \<Rightarrow> Inl (JsError ''SyntaxError'')
                | Some members \<Rightarrow> Inr (Some (object_of members)))"
    unfolding j by simp
  from c1 c2 c3 c4 c5 c6 c7 wb show ?thesis by blast
qed

theorem fetch_absent_or_fatal_witness:
  "fst (get (failing_s3 (JsError ''AccessDenied'')) demo_s3options ''fingerprints.json'' (world0 ()))
     = Inr None
   \<and> fst (getJson (demo_env [] []) (failing_s3 (JsError ''AccessDenied'')) demo_s3options
            ''fingerprints.json'' (world0 ())) = Inr None
   \<and> fst (get (failing_s3 (JsError ''TimeoutError'')) demo_s3options ''fingerprints.json'' (world0 ()))
     = Inl (JsError ''TimeoutError'')
   \<and> fst (writeBundle (demo_env [] []) (demo_bucket False) (demo_options False False) None ''/dist''
            (world0 [(''site/fingerprints.json'', ''{oops'')])) = Inl (JsError ''SyntaxError'')"
proof -
  note t1 = fetch_absent_or_fatal[where svc = "failing_s3 (JsError ''AccessDenied'')"
      and opts = demo_s3options and key = "''fingerprints.json''" and w = "world0 ()"
      and e = "demo_env [] []"]
  have a1: "\<exists>err. fst (failing_s3 (JsError ''AccessDenied'') (remote (world0 ()))
              (GetObject (bucket demo_s3options) (normalizeKey demo_s3options ''fingerprints.json'')))
            = Inl err \<and> (error_named err ''NoSuchKey'' \<or> error_named err ''AccessDenied'')"
    by (simp add: failing_s3_def)
  from t1 a1 have 1: "fst (get (failing_s3 (JsError ''AccessDenied'')) demo_s3options
      ''fingerprints.json'' (world0 ())) = Inr None" by blast
  from t1 1 have 2: "fst (getJson (demo_env [] []) (failing_s3 (JsError ''AccessDenied''))
      demo_s3options ''fingerprints.json'' (world0 ())) = Inr None" by blast
  note t3 = fetch_absent_or_fatal[where svc = "failing_s3 (JsError ''TimeoutError'')"
      and opts = demo_s3options and key = "''fingerprints.json''" and w = "world0 ()"]
  have a3: "fst (failing_s3 (JsError ''TimeoutError'') (remote (world0 ()))
              (GetObject (bucket demo_s3options) (normalizeKey demo_s3options ''fingerprints.json'')))
            = Inl (JsError ''TimeoutError'')
          \<and> \<not> error_named (JsError ''TimeoutError'') ''NoSuchKey''
          \<and> \<not> error_named (JsError ''TimeoutError'') ''AccessDenied''"
    by (simp add: failing_s3_def)
  from t3 a3 have 3: "fst (get (failing_s3 (JsError ''TimeoutError'')) demo_s3options
      ''fingerprints.json'' (world0 ())) = Inl (JsError ''TimeoutError'')" by blast
  note t4 = fetch_absent_or_fatal[where svc = "demo_bucket False"
      and opts = "s3 (demo_options False False)" and key = "''fingerprints.json''"
      and w = "world0 [(''site/fingerprints.json'', ''{oops'')]"
      and e = "demo_env [] []" and options = "demo_options False False" and dtag = None
      and outDir = "''/dist''"]
  have a4: "fst (demo_bucket False (remote (world0 [(''site/fingerprints.json'', ''{oops'')]))
              (GetObject (bucket (s3 (demo_options False False)))
                 (normalizeKey (s3 (demo_options False False)) ''fingerprints.json'')))
            = Inr (Some ''{oops'')"
    by (simp add: demo_bucket_def world0_def demo_options_def demo_s3options_def
        normalizeKey_def startsWith_def)
  have p4: "JSON_parse (demo_env [] []) ''{oops'' = None"
    by (simp add: demo_env_def)
  have f4: "getFiles (demo_env [] []) ''/dist'' = Inr []"
    by (simp add: demo_env_def getFiles_def)
  from t4 a4 have g4: "fst (get (demo_bucket False) (s3 (demo_options False False))
      ''fingerprints.json'' (world0 [(''site/fingerprints.json'', ''{oops'')])) = Inr (Some ''{oops'')"
    by blast
  from t4 f4 g4 p4 have 4: "fst (writeBundle (demo_env [] []) (demo_bucket False)
      (demo_options False False) None ''/dist''
      (world0 [(''site/fingerprints.json'', ''{oops'')])) = Inl (JsError ''SyntaxError'')"
    by blast
  from 1 2 3 4 show ?thesis by blast
qed

subsection \<open>C6: not-found while tagging and deleting\<close>




subsection \<open>C7: normalized keys\<close>

text \<open>
  C7, as amended. \<open>normalizeKey\<close> returns the prefix, one slash, and the key without its
  first character when that is a slash. The result is the prefix and the key joined by
  exactly one slash whenever the prefix does not end with a slash and the key does not
  start with two.
\<close>

theorem normalizeKey_one_slash:
  "normalizeKey opts key =
     prefix opts @ ''/'' @ (if startsWith key ''/'' then tl key else key)
   \<and> (\<not> endsWith (prefix opts) ''/'' \<and> \<not> startsWith key ''//''
        \<longrightarrow> normalizeKey opts key = spec_join (prefix opts) key)"
proof -
  have a: "normalizeKey opts key =
     prefix opts @ ''/'' @ (if startsWith key ''/'' then tl key else key)"
    by (cases key) (auto simp: normalizeKey_def startsWith_def)
  have b: "normalizeKey opts key = spec_join (prefix opts) key"
    if p: "\<not> endsWith (prefix opts) ''/''" and k: "\<not> startsWith key ''//''"
  proof -
    have p': "rev (dropWhile (\<lambda>c. c = CHR ''/'') (rev (prefix opts))) = prefix opts"
    proof (cases "rev (prefix opts)")
      case Nil
      then show ?thesis by simp
    next
      case (Cons c cs)
      then have pc: "prefix opts = rev cs @ [c]" by (metis rev.simps(2) rev_rev_ident)
      with p have "c \<noteq> CHR ''/''" by (simp add: endsWith_def)
      with Cons show ?thesis by (simp add: pc)
    qed
    have k': "dropWhile (\<lambda>c. c = CHR ''/'') key = (if startsWith key ''/'' then tl key else key)"
    proof (cases key)
      case Nil
      then show ?thesis by (simp add: startsWith_def)
    next
      case (Cons c cs)
      show ?thesis
      proof (cases "c = CHR ''/''")
        case True
        with k Cons have "cs = [] \<or> hd cs \<noteq> CHR ''/''"
          by (cases cs) (auto simp: startsWith_def)
        then have "dropWhile (\<lambda>c. c = CHR ''/'') cs = cs" by (cases cs) auto
        with True Cons show ?thesis by (simp add: startsWith_def)
      next
        case False
        with Cons show ?thesis by (simp add: startsWith_def)
      qed
    qed
    show ?thesis unfolding a spec_join_def p' k' by simp
  qed
  from a b show ?thesis by blast
qed

theorem normalizeKey_one_slash_witness:
  "normalizeKey demo_s3options ''/app.js'' = ''site/app.js''
   \<and> normalizeKey demo_s3options ''app.js'' = spec_join ''site'' ''app.js''"
proof -
  have p: "\<not> endsWith (prefix demo_s3options) ''/''"
    by (simp add: demo_s3options_def endsWith_def)
  have k: "\<not> startsWith ''app.js'' ''//''" by (simp add: startsWith_def)
  from normalizeKey_one_slash[of demo_s3options "''/app.js''"]
  have 1: "normalizeKey demo_s3options ''/app.js'' = ''site/app.js''"
    by (simp add: demo_s3options_def startsWith_def)
  from normalizeKey_one_slash[of demo_s3options "''app.js''"] p k
  have "normalizeKey demo_s3options ''app.js'' = spec_join (prefix demo_s3options) ''app.js''"
    by blast
  then have 2: "normalizeKey demo_s3options ''app.js'' = spec_join ''site'' ''app.js''"
    by (simp add: demo_s3options_def)
  from 1 2 show ?thesis by simp
qed

text \<open>
  The claim as stated fails for a prefix that ends with a slash and for a key that starts
  with two: the result has two slashes where the spec's join has one.
\<close>

theorem normalizeKey_two_slashes_counterexample:
  "normalizeKey (demo_s3options\<lparr>prefix := ''site/''\<rparr>) ''app.js'' = ''site//app.js''
   \<and> spec_join ''site/'' ''app.js'' = ''site/app.js''
   \<and> normalizeKey demo_s3options ''//app.js'' = ''site//app.js''
   \<and> spec_join ''site'' ''//app.js'' = ''site/app.js''"
  by (simp add: normalizeKey_def demo_s3options_def startsWith_def spec_join_def)

section \<open>The pass\<close>

subsection \<open>C2: a file is uploaded if and only if it changed\<close>

text \<open>
  C2. In a pass that completes, the events between the fetch of the manifest and the loop
  over the loaded manifest are the segments of the local files in the order of the
  listing. Every file can be read, and its digest is the SHA-256 of its bytes. The segment
  of a file holds an upload if and only if the file is changed: the loaded manifest has no
  entry under its logical name, or that entry's hash is not the digest. The segment of an
  unchanged file is empty (no upload, no compression); that of a changed file holds
  exactly one \<open>PutObject\<close>, to the key of its logical name. So the keys that the pass
  puts are those of the changed files, in the order of the listing, and then the
  manifest key; and the files it compresses are the changed files whose path does not end
  with \<^verbatim>\<open>.html\<close> when the gzip option is enabled, and none otherwise.
\<close>

theorem upload_iff_changed:
  assumes "writeBundle e svc options dtag outDir w = (Inr u, w')"
  defines "files \<equiv> listing e outDir"
  defines "loaded \<equiv> loaded_manifest e svc options w"
  defines "segment \<equiv> file_events e options outDir loaded"
  shows "new_events w w' =
           [Sent (GetObject (bucket (s3 options)) (normalizeKey (s3 options) ''fingerprints.json''))] @
           concat (map segment files) @
           stale_events (s3 options) dtag
             (stale_keys (map (logical_name e options outDir) files) loaded) @
           [Sent (PutObject (manifest_put e (s3 options) (written_manifest e options outDir files))),
            Deployed]
       \<and> (\<forall>f\<in>set files. \<exists>data. readFile e f = Inr data \<and> digest e f = sha256_hex e data)
       \<and> (\<forall>f\<in>set files. puts (segment f) \<noteq> [] \<longleftrightarrow> changed e options outDir loaded f)
       \<and> (\<forall>f\<in>set files. \<not> changed e options outDir loaded f \<longrightarrow> segment f = [])
       \<and> (\<forall>f\<in>set files. changed e options outDir loaded f \<longrightarrow>
            (\<exists>r. puts (segment f) = [r]
                \<and> Key r = normalizeKey (s3 options) (logical_name e options outDir f)))
       \<and> map Key (puts (new_events w w')) =
           map (\<lambda>f. normalizeKey (s3 options) (logical_name e options outDir f))
             (filter (changed e options outDir loaded) files) @
           [normalizeKey (s3 options) ''fingerprints.json'']
       \<and> compressed (new_events w w') =
           map (logical_name e options outDir)
             (filter (\<lambda>f. changed e options outDir loaded f \<and> \<not> endsWith f ''.html''
                           \<and> gzip_enabled (gzip options)) files)"
proof -
  note wb = writeBundle_Inr[OF assms(1), folded files_def loaded_def]
  have A: "new_events w w' =
           [Sent (GetObject (bucket (s3 options)) (normalizeKey (s3 options) ''fingerprints.json''))] @
           concat (map segment files) @
           stale_events (s3 options) dtag
             (stale_keys (map (logical_name e options outDir) files) loaded) @
           [Sent (PutObject (manifest_put e (s3 options) (written_manifest e options outDir files))),
            Deployed]"
    using wb(1) by (simp add: segment_def)
  have D: "\<forall>f\<in>set files. \<exists>data. readFile e f = Inr data \<and> digest e f = sha256_hex e data"
    using wb(2) by (auto dest: digest_readFile)
  have unchanged: "segment f = []" if "f \<in> set files" "\<not> changed e options outDir loaded f" for f
    using that wb(2) by (auto simp: segment_def changed_recorded_hash intro: file_events_Nil)
  have chg: "\<exists>r. puts (segment f) = [r]
                \<and> Key r = normalizeKey (s3 options) (logical_name e options outDir f)"
    if "f \<in> set files" "changed e options outDir loaded f" for f
  proof -
    from that wb(3) have "Uploaded (logical_name e options outDir f) \<in> set (segment f)"
      by (simp add: segment_def changed_recorded_hash)
    from file_events_upload[OF this[unfolded segment_def]]
    show ?thesis
      by (auto simp: segment_def putObject_input_def split: if_splits)
  qed
  have iff: "puts (segment f) \<noteq> [] \<longleftrightarrow> changed e options outDir loaded f"
    if "f \<in> set files" for f
    using unchanged[OF that] chg[OF that] by (cases "changed e options outDir loaded f") auto
  have up: "\<forall>f\<in>set files. changed e options outDir loaded f \<longrightarrow>
           Uploaded (logical_name e options outDir f) \<in> set (file_events e options outDir loaded f)"
    using wb(3) by (simp add: changed_recorded_hash)
  note sm = concat_file_events_summary[OF wb(2) up]
  have K: "map Key (puts (new_events w w')) =
           map (\<lambda>f. normalizeKey (s3 options) (logical_name e options outDir f))
             (filter (changed e options outDir loaded) files) @
           [normalizeKey (s3 options) ''fingerprints.json'']"
    unfolding A segment_def
    by (simp add: sm(1) manifest_put_def putObject_input_def)
  have C: "compressed (new_events w w') =
           map (logical_name e options outDir)
             (filter (\<lambda>f. changed e options outDir loaded f \<and> \<not> endsWith f ''.html''
                           \<and> gzip_enabled (gzip options)) files)"
    unfolding A segment_def
    by (simp add: sm(2))
  from A D unchanged chg iff K C show ?thesis by blast
qed

theorem upload_iff_changed_witness:
  "fst (writeBundle site_env (demo_bucket False) site_options None ''/dist'' (world0 old_bucket)) = Inr ()
   \<and> \<not> changed site_env site_options ''/dist''
         (loaded_manifest site_env (demo_bucket False) site_options (world0 old_bucket)) ''/dist/app.js''
   \<and> file_events site_env site_options ''/dist''
         (loaded_manifest site_env (demo_bucket False) site_options (world0 old_bucket)) ''/dist/app.js'' = []
   \<and> changed site_env site_options ''/dist''
         (loaded_manifest site_env (demo_bucket False) site_options (world0 old_bucket)) ''/dist/index.html''
   \<and> (\<exists>r. puts (file_events site_env site_options ''/dist''
               (loaded_manifest site_env (demo_bucket False) site_options (world0 old_bucket))
               ''/dist/index.html'') = [r]
          \<and> Key r = normalizeKey (s3 site_options) (logical_name site_env site_options ''/dist'' ''/dist/index.html''))
   \<and> map Key (puts (new_events (world0 old_bucket)
         (snd (writeBundle site_env (demo_bucket False) site_options None ''/dist'' (world0 old_bucket)))))
       = [''site/index'', ''site/fingerprints.json'']
   \<and> compressed (new_events (world0 old_bucket)
         (snd (writeBundle site_env (demo_bucket False) site_options None ''/dist'' (world0 old_bucket))))
       = []"
proof -
  have ok: "fst (writeBundle site_env (demo_bucket False) site_options None ''/dist''
      (world0 old_bucket)) = Inr ()"
    by code_simp
  note t = upload_iff_changed[OF pair_fst[OF ok]]
  have f1: "''/dist/app.js'' \<in> set (listing site_env ''/dist'')" by code_simp
  have f2: "''/dist/index.html'' \<in> set (listing site_env ''/dist'')" by code_simp
  have c1: "\<not> changed site_env site_options ''/dist''
         (loaded_manifest site_env (demo_bucket False) site_options (world0 old_bucket)) ''/dist/app.js''"
    by code_simp
  have c2: "changed site_env site_options ''/dist''
         (loaded_manifest site_env (demo_bucket False) site_options (world0 old_bucket)) ''/dist/index.html''"
    by code_simp
  from t f1 c1 have 1: "file_events site_env site_options ''/dist''
         (loaded_manifest site_env (demo_bucket False) site_options (world0 old_bucket)) ''/dist/app.js'' = []"
    by blast
  from t f2 c2 have 2: "\<exists>r. puts (file_events site_env site_options ''/dist''
               (loaded_manifest site_env (demo_bucket False) site_options (world0 old_bucket))
               ''/dist/index.html'') = [r]
          \<and> Key r = normalizeKey (s3 site_options) (logical_name site_env site_options ''/dist'' ''/dist/index.html'')"
    by blast
  from t have "map Key (puts (new_events (world0 old_bucket)
         (snd (writeBundle site_env (demo_bucket False) site_options None ''/dist'' (world0 old_bucket)))))
       = map (\<lambda>f. normalizeKey (s3 site_options) (logical_name site_env site_options ''/dist'' f))
             (filter (changed site_env site_options ''/dist''
                (loaded_manifest site_env (demo_bucket False) site_options (world0 old_bucket)))
                (listing site_env ''/dist'')) @
           [normalizeKey (s3 site_options) ''fingerprints.json'']"
    by blast
  also have "\<dots> = [''site/index'', ''site/fingerprints.json'']" by code_simp
  finally have 3: "map Key (puts (new_events (world0 old_bucket)
         (snd (writeBundle site_env (demo_bucket False) site_options None ''/dist'' (world0 old_bucket)))))
       = [''site/index'', ''site/fingerprints.json'']" .
  from t have "compressed (new_events (world0 old_bucket)
         (snd (writeBundle site_env (demo_bucket False) site_options None ''/dist'' (world0 old_bucket))))
       = map (logical_name site_env site_options ''/dist'')
             (filter (\<lambda>f. changed site_env site_options ''/dist''
                  (loaded_manifest site_env (demo_bucket False) site_options (world0 old_bucket)) f
                  \<and> \<not> endsWith f ''.html'' \<and> gzip_enabled (gzip site_options))
                (listing site_env ''/dist''))"
    by blast
  also have "\<dots> = []" by code_simp
  finally have 4: "compressed (new_events (world0 old_bucket)
         (snd (writeBundle site_env (demo_bucket False) site_options None ''/dist'' (world0 old_bucket))))
       = []" .
  from ok c1 c2 1 2 3 4 show ?thesis by blast
qed

subsection \<open>C8: what an asset upload carries\<close>

text \<open>
  C8. Whatever the outcome of a pass, every \<open>PutObject\<close> it sends is the manifest write or
  the upload of a local file that could be read: to the key of the file's logical name,
  with the content type that \<open>mime_lookup\<close> gives for the extension of the file's path
  (\<^verbatim>\<open>application/octet-stream\<close> when it gives none), with public-read access and with the
  length of the body. A file whose path ends with \<^verbatim>\<open>.html\<close> is sent as it is, without
  cache control and without content encoding, whatever the gzip option; any other file
  gets the immutable cache control and, when the gzip option is enabled, the compressed
  bytes with content encoding \<^verbatim>\<open>gzip\<close>.
\<close>

theorem asset_upload_metadata:
  assumes "writeBundle e svc options dtag outDir w = (res, w')"
    and "r \<in> set (puts (new_events w w'))"
  shows "r = manifest_put e (s3 options) (written_manifest e options outDir (listing e outDir))
       \<or> (\<exists>f\<in>set (listing e outDir). \<exists>data.
            readFile e f = Inr data
          \<and> Bucket r = bucket (s3 options)
          \<and> Key r = normalizeKey (s3 options) (logical_name e options outDir f)
          \<and> ContentType r =
              Some (case mime_lookup e (extname e f) of
                      Some t \<Rightarrow> t
                    | None \<Rightarrow> ''application/octet-stream'')
          \<and> ACL r = Some acl_public_read
          \<and> ContentLength r = byteLength (Body r)
          \<and> (if endsWith f ''.html''
             then CacheControl r = None \<and> ContentEncoding r = None \<and> Body r = Buffer data
             else CacheControl r = Some ''public, max-age=31536000, immutable''
                \<and> (if gzip_enabled (gzip options)
                   then ContentEncoding r = Some ''gzip''
                      \<and> (\<exists>z. gzipAsync e data (gzip_arg (gzip options)) = Inr z
                             \<and> Body r = Buffer z)
                   else ContentEncoding r = None \<and> Body r = Buffer data)))"
proof -
  from writeBundle_puts[OF assms] show ?thesis
  proof
    assume "\<exists>f\<in>set (listing e outDir).
      Sent (PutObject r) \<in> set (file_events e options outDir (loaded_manifest e svc options w) f)"
    then obtain f where f: "f \<in> set (listing e outDir)"
      and r: "Sent (PutObject r) \<in> set (file_events e options outDir (loaded_manifest e svc options w) f)"
      by blast
    from file_events_upload[OF r] obtain data payload meta where
      d: "readFile e f = Inr data"
      and pm: "if \<not> endsWith f ''.html'' \<and> gzip_enabled (gzip options)
            then gzipAsync e data (gzip_arg (gzip options)) = Inr payload
               \<and> meta = (getFileMeta e f)\<lparr>contentEncoding := Some ''gzip''\<rparr>
            else payload = data \<and> meta = getFileMeta e f"
      and fe: "file_events e options outDir (loaded_manifest e svc options w) f =
             (if \<not> endsWith f ''.html'' \<and> gzip_enabled (gzip options)
              then [Compressed (logical_name e options outDir f) (length payload)] else []) @
             [Sent (PutObject (putObject_input (s3 options) (logical_name e options outDir f)
                      (Buffer payload) (Some meta))),
              Uploaded (logical_name e options outDir f)]"
      by blast
    from r fe have req: "r = putObject_input (s3 options) (logical_name e options outDir f)
                      (Buffer payload) (Some meta)"
      by (auto split: if_splits)
    have "Bucket r = bucket (s3 options)
          \<and> Key r = normalizeKey (s3 options) (logical_name e options outDir f)
          \<and> ContentType r =
              Some (case mime_lookup e (extname e f) of
                      Some t \<Rightarrow> t
                    | None \<Rightarrow> ''application/octet-stream'')
          \<and> ACL r = Some acl_public_read
          \<and> ContentLength r = byteLength (Body r)
          \<and> (if endsWith f ''.html''
             then CacheControl r = None \<and> ContentEncoding r = None \<and> Body r = Buffer data
             else CacheControl r = Some ''public, max-age=31536000, immutable''
                \<and> (if gzip_enabled (gzip options)
                   then ContentEncoding r = Some ''gzip''
                      \<and> (\<exists>z. gzipAsync e data (gzip_arg (gzip options)) = Inr z
                             \<and> Body r = Buffer z)
                   else ContentEncoding r = None \<and> Body r = Buffer data))"
      using pm unfolding req
      by (auto simp: putObject_input_def getFileMeta_def split: if_splits)
    with f d show ?thesis by blast
  qed blast
qed

theorem asset_upload_metadata_witness:
  "\<lparr>Bucket = ''b'', Key = ''site/app.js'', Body = Buffer ''gzip:run()'',
     ContentType = Some ''application/javascript'', ContentLength = 10,
     CacheControl = Some ''public, max-age=31536000, immutable'',
     ACL = Some acl_public_read, ContentEncoding = Some ''gzip''\<rparr>
     \<in> set (puts (new_events (world0 [])
           (snd (writeBundle site_env (demo_bucket False) site_options None ''/dist'' (world0 [])))))
   \<and> (\<exists>f\<in>set (listing site_env ''/dist''). \<exists>data.
          readFile site_env f = Inr data
        \<and> ''site/app.js'' = normalizeKey (s3 site_options) (logical_name site_env site_options ''/dist'' f)
        \<and> Some ''application/javascript'' =
              Some (case mime_lookup site_env (extname site_env f) of
                      Some t \<Rightarrow> t
                    | None \<Rightarrow> ''application/octet-stream'')
        \<and> \<not> endsWith f ''.html''
        \<and> gzipAsync site_env data (gzip_arg (gzip site_options)) = Inr ''gzip:run()'')"
proof -
  define r where "r = \<lparr>Bucket = ''b'', Key = ''site/app.js'', Body = Buffer ''gzip:run()'',
     ContentType = Some ''application/javascript'', ContentLength = 10,
     CacheControl = Some ''public, max-age=31536000, immutable'',
     ACL = Some acl_public_read, ContentEncoding = Some ''gzip''\<rparr>"
  have m: "r \<in> set (puts (new_events (world0 [])
           (snd (writeBundle site_env (demo_bucket False) site_options None ''/dist'' (world0 [])))))"
    unfolding r_def by code_simp
  have nm: "r \<noteq> manifest_put site_env (s3 site_options)
      (written_manifest site_env site_options ''/dist'' (listing site_env ''/dist''))"
    unfolding r_def by code_simp
  have gz: "gzip_enabled (gzip site_options)" by code_simp
  from asset_upload_metadata[OF prod.collapse[symmetric] m] nm
  obtain f data where f: "f \<in> set (listing site_env ''/dist'')"
    and d: "readFile site_env f = Inr data"
    and k: "Key r = normalizeKey (s3 site_options) (logical_name site_env site_options ''/dist'' f)"
    and c: "ContentType r =
              Some (case mime_lookup site_env (extname site_env f) of
                      Some t \<Rightarrow> t
                    | None \<Rightarrow> ''application/octet-stream'')"
    and rest: "if endsWith f ''.html''
             then CacheControl r = None \<and> ContentEncoding r = None \<and> Body r = Buffer data
             else CacheControl r = Some ''public, max-age=31536000, immutable''
                \<and> (if gzip_enabled (gzip site_options)
                   then ContentEncoding r = Some ''gzip''
                      \<and> (\<exists>z. gzipAsync site_env data (gzip_arg (gzip site_options)) = Inr z
                             \<and> Body r = Buffer z)
                   else ContentEncoding r = None \<and> Body r = Buffer data)"
    by blast
  have nh: "\<not> endsWith f ''.html''"
    using rest by (auto simp: r_def split: if_splits)
  with rest gz have "gzipAsync site_env data (gzip_arg (gzip site_options)) = Inr ''gzip:run()''"
    by (auto simp: r_def)
  with f d k c nh m show ?thesis
    unfolding r_def by auto
qed

subsection \<open>C9: stripping the suffix\<close>

text \<open>
  C9. With \<^verbatim>\<open>cleanHtmlSuffix\<close> enabled, the logical name is the relative path without its
  last five characters \<^verbatim>\<open>.html\<close> if and only if the path ends with \<^verbatim>\<open>.html\<close>; a path
  that does not end so is never altered, and nothing is stripped when the option is off.
  Whatever the round of the loop for a file sends goes to the key of the logical name,
  with the content type of the extension of the file's own path.
\<close>

theorem html_suffix_stripping:
  fixes svc :: "'s S3" and e :: env and options :: DeployOptions and outDir f :: string
  defines "rel \<equiv> normalizePath e (relative e outDir f)"
  defines "name \<equiv> logical_name e options outDir f"
  shows "(cleanHtmlSuffix options = Some True \<longrightarrow>
            (name @ ''.html'' = rel \<longleftrightarrow> endsWith rel ''.html''))
       \<and> (cleanHtmlSuffix options = Some True \<and> endsWith rel ''.html'' \<longrightarrow>
            name = take (length rel - 5) rel)
       \<and> (\<not> endsWith rel ''.html'' \<longrightarrow> name = rel)
       \<and> (cleanHtmlSuffix options \<noteq> Some True \<longrightarrow> name = rel)
       \<and> (\<forall>st w res w' r.
            process_file e svc options outDir f st w = (res, w')
            \<and> r \<in> set (puts (new_events w w')) \<longrightarrow>
              Key r = normalizeKey (s3 options) name
            \<and> ContentType r =
                Some (case mime_lookup e (extname e f) of
                        Some t \<Rightarrow> t
                      | None \<Rightarrow> ''application/octet-stream''))"
proof -
  have strip: "name @ ''.html'' = rel" "name = take (length rel - 5) rel"
    if "cleanHtmlSuffix options = Some True" "endsWith rel ''.html''"
  proof -
    from that show n: "name = take (length rel - 5) rel"
      by (simp add: name_def logical_name_def rel_def[symmetric] slice_end_def)
    from that(2) have "drop (length rel - 5) rel = ''.html''"
      by (simp add: endsWith_def eval_nat_numeral)
    then show "name @ ''.html'' = rel"
      unfolding n by (metis append_take_drop_id)
  qed
  have keep: "name = rel" if "\<not> endsWith rel ''.html'' \<or> cleanHtmlSuffix options \<noteq> Some True"
    using that by (auto simp: name_def logical_name_def rel_def[symmetric])
  have iff: "name @ ''.html'' = rel \<longleftrightarrow> endsWith rel ''.html''"
    if c: "cleanHtmlSuffix options = Some True"
  proof
    assume "name @ ''.html'' = rel"
    then have "rel = name @ ''.html''" by simp
    then show "endsWith rel ''.html''" by (simp add: endsWith_def)
  next
    assume "endsWith rel ''.html''"
    with c show "name @ ''.html'' = rel" by (rule strip(1))
  qed
  have up: "Key r = normalizeKey (s3 options) name
            \<and> ContentType r =
                Some (case mime_lookup e (extname e f) of
                        Some t \<Rightarrow> t
                      | None \<Rightarrow> ''application/octet-stream'')"
    if run: "process_file e svc options outDir f st w = (res, w')"
      and r: "r \<in> set (puts (new_events w w'))" for st w res w' r
  proof -
    from process_file_prefix[OF run] obtain n where
      "events w' = events w @ take n (file_events e options outDir (fingerprints st) f)"
      by blast
    with r have m: "Sent (PutObject r) \<in> set (file_events e options outDir (fingerprints st) f)"
      by (auto simp: mem_puts dest: in_set_takeD)
    from m file_events_upload[OF m] show ?thesis
      by (auto simp: name_def putObject_input_def getFileMeta_def split: if_splits)
  qed
  from strip keep iff up show ?thesis by blast
qed

theorem html_suffix_stripping_witness:
  "cleanHtmlSuffix site_options = Some True
   \<and> endsWith (normalizePath about_env (relative about_env ''/dist'' ''/dist/about.html'')) ''.html''
   \<and> logical_name about_env site_options ''/dist'' ''/dist/about.html'' = ''about''
   \<and> extname about_env ''/dist/about.html'' = ''.html''
   \<and> map (\<lambda>r. (Key r, ContentType r))
        (puts (new_events (world0 [])
           (snd (process_file about_env (demo_bucket False) site_options ''/dist'' ''/dist/about.html''
                  \<lparr>fingerprints = [], newFingerprints = [], proto_processed = False\<rparr> (world0 [])))))
     = [(''site/about'', Some ''text/html'')]"
proof -
  note t = html_suffix_stripping[where e = about_env and options = site_options
      and outDir = "''/dist''" and f = "''/dist/about.html''" and svc = "demo_bucket False"]
  have c: "cleanHtmlSuffix site_options = Some True" by code_simp
  have h: "endsWith (normalizePath about_env (relative about_env ''/dist'' ''/dist/about.html'')) ''.html''"
    by code_simp
  from t c h have "logical_name about_env site_options ''/dist'' ''/dist/about.html'' =
      take (length (normalizePath about_env (relative about_env ''/dist'' ''/dist/about.html'')) - 5)
        (normalizePath about_env (relative about_env ''/dist'' ''/dist/about.html''))"
    by blast
  also have "\<dots> = ''about''" by code_simp
  finally have n: "logical_name about_env site_options ''/dist'' ''/dist/about.html'' = ''about''" .
  have x: "extname about_env ''/dist/about.html'' = ''.html''" by code_simp
  have p: "map (\<lambda>r. (Key r, ContentType r))
        (puts (new_events (world0 [])
           (snd (process_file about_env (demo_bucket False) site_options ''/dist'' ''/dist/about.html''
                  \<lparr>fingerprints = [], newFingerprints = [], proto_processed = False\<rparr> (world0 [])))))
     = [(''site/about'', Some ''text/html'')]"
    by code_simp
  from c h n x p show ?thesis by blast
qed

subsection \<open>C10: the manifest and the local files\<close>

text \<open>
  C10, as amended. \<open>getFiles\<close> is the listing as fast-glob returns it, without a filter.
  The manifest write is the last command of a pass that completes, after the loops. When
  no local file has a logical name that is normalized to the manifest key, that write is
  the only \<open>PutObject\<close> to the manifest key.
\<close>

theorem manifest_written_last:
  assumes "writeBundle e svc options dtag outDir w = (Inr u, w')"
  defines "files \<equiv> listing e outDir"
  defines "key \<equiv> normalizeKey (s3 options) ''fingerprints.json''"
  defines "final \<equiv> manifest_put e (s3 options) (written_manifest e options outDir files)"
  shows "getFiles e outDir = fg e outDir
       \<and> getFiles e outDir = Inr files
       \<and> Key final = key
       \<and> (\<exists>pre. new_events w w' = pre @ [Sent (PutObject final), Deployed])
       \<and> ((\<forall>f\<in>set files. normalizeKey (s3 options) (logical_name e options outDir f) \<noteq> key)
            \<longrightarrow> filter (\<lambda>r. Key r = key) (puts (new_events w w')) = [final])"
proof -
  note wb = writeBundle_Inr[OF assms(1), folded files_def]
  define F where "F = concat (map (file_events e options outDir (loaded_manifest e svc options w)) files)"
  have k: "Key final = key"
    by (simp add: final_def key_def manifest_put_def putObject_input_def)
  have p: "puts (new_events w w') = puts F @ [final]"
    using wb(1) by (simp add: F_def final_def)
  have u: "filter (\<lambda>r. Key r = key) (puts (new_events w w')) = [final]"
    if "\<forall>f\<in>set files. normalizeKey (s3 options) (logical_name e options outDir f) \<noteq> key"
  proof -
    have "\<forall>r\<in>set (puts F). Key r \<noteq> key"
      using that unfolding F_def by (auto dest!: puts_file_events_acl)
    then have "filter (\<lambda>r. Key r = key) (puts F) = []" by (simp add: filter_empty_conv)
    with p k show ?thesis by simp
  qed
  have l: "\<exists>pre. new_events w w' = pre @ [Sent (PutObject final), Deployed]"
  proof -
    have "new_events w w' =
      ([Sent (GetObject (bucket (s3 options)) (normalizeKey (s3 options) ''fingerprints.json''))] @
       F @ stale_events (s3 options) dtag
         (stale_keys (map (logical_name e options outDir) files) (loaded_manifest e svc options w)))
      @ [Sent (PutObject final), Deployed]"
      using wb(1) by (simp add: F_def final_def)
    then show ?thesis by (rule exI)
  qed
  from k u l wb(4) show ?thesis by (simp add: getFiles_def)
qed

theorem manifest_written_last_witness:
  "fst (writeBundle site_env (demo_bucket False) site_options None ''/dist'' (world0 old_bucket)) = Inr ()
   \<and> filter (\<lambda>r. Key r = normalizeKey (s3 site_options) ''fingerprints.json'')
        (puts (new_events (world0 old_bucket)
           (snd (writeBundle site_env (demo_bucket False) site_options None ''/dist'' (world0 old_bucket)))))
     = [manifest_put site_env (s3 site_options)
          (written_manifest site_env site_options ''/dist'' (listing site_env ''/dist''))]"
proof -
  have ok: "fst (writeBundle site_env (demo_bucket False) site_options None ''/dist''
      (world0 old_bucket)) = Inr ()"
    by code_simp
  note t = manifest_written_last[OF pair_fst[OF ok]]
  have nk: "\<forall>f\<in>set (listing site_env ''/dist'').
      normalizeKey (s3 site_options) (logical_name site_env site_options ''/dist'' f)
        \<noteq> normalizeKey (s3 site_options) ''fingerprints.json''"
    by code_simp
  from t nk have "filter (\<lambda>r. Key r = normalizeKey (s3 site_options) ''fingerprints.json'')
        (puts (new_events (world0 old_bucket)
           (snd (writeBundle site_env (demo_bucket False) site_options None ''/dist'' (world0 old_bucket)))))
     = [manifest_put site_env (s3 site_options)
          (written_manifest site_env site_options ''/dist'' (listing site_env ''/dist''))]"
    by blast
  with ok show ?thesis by blast
qed

text \<open>
  The claim as stated fails for an output directory that holds a file
  \<^verbatim>\<open>fingerprints.json\<close>: the file is listed, it is uploaded as an asset to the manifest
  key, and the manifest is then written over it.
\<close>

theorem manifest_as_asset_counterexample:
  "listing manifest_env ''/dist'' = [''/dist/fingerprints.json'']
   \<and> fst (writeBundle manifest_env (demo_bucket False) site_options None ''/dist'' (world0 [])) = Inr ()
   \<and> map (\<lambda>r. (Key r, ACL r, Body r))
        (puts (new_events (world0 [])
           (snd (writeBundle manifest_env (demo_bucket False) site_options None ''/dist'' (world0 [])))))
     = [(''site/fingerprints.json'', Some acl_public_read, Buffer ''gzip:{}''),
        (''site/fingerprints.json'', Some acl_private, Text ''fingerprints.json=sha256:{};'')]"
  by code_simp

subsection \<open>C3: the manifest that a pass writes\<close>

text \<open>
  C3, as amended. A pass that completes, in which no local file has the logical name
  \<^verbatim>\<open>__proto__\<close>, ends with the manifest write and the final log line; every earlier
  \<open>PutObject\<close> is a public-read asset upload. The write goes to the key of
  \<^verbatim>\<open>fingerprints.json\<close> with content type \<^verbatim>\<open>application/json\<close> and private access, whether
  or not a file changed. The names of the written map are exactly the logical names of the
  local files; each name is mapped to the SHA-256 digest of the last listed file of that
  name, and no entry has a processed marker.
\<close>

theorem manifest_postcondition:
  assumes "writeBundle e svc options dtag outDir w = (Inr u, w')"
    and "''__proto__'' \<notin> logical_name e options outDir ` set (listing e outDir)"
  defines "files \<equiv> listing e outDir"
  defines "nf \<equiv> written_manifest e options outDir files"
  shows "(\<exists>pre. new_events w w' = pre @ [Sent (PutObject (manifest_put e (s3 options) nf)), Deployed]
              \<and> (\<forall>r\<in>set (puts pre). ACL r = Some acl_public_read))
       \<and> manifest_put e (s3 options) nf =
           \<lparr>Bucket = bucket (s3 options),
            Key = normalizeKey (s3 options) ''fingerprints.json'',
            Body = Text (JSON_stringify e nf),
            ContentType = Some ''application/json'',
            ContentLength = length (JSON_stringify e nf),
            CacheControl = None,
            ACL = Some acl_private,
            ContentEncoding = None\<rparr>
       \<and> fst ` set nf = logical_name e options outDir ` set files
       \<and> distinct (map fst nf)
       \<and> map_of nf = map_of (rev (map (manifest_entry e options outDir) files))
       \<and> (\<forall>f\<in>set files. \<exists>data. readFile e f = Inr data
             \<and> manifest_entry e options outDir f =
                 (logical_name e options outDir f, \<lparr>hash = sha256_hex e data, processed = None\<rparr>))
       \<and> (\<forall>kv\<in>set nf. processed (snd kv) = None)"
proof -
  note wb = writeBundle_Inr[OF assms(1), folded files_def]
  define pre where "pre =
     [Sent (GetObject (bucket (s3 options)) (normalizeKey (s3 options) ''fingerprints.json''))] @
     concat (map (file_events e options outDir (loaded_manifest e svc options w)) files) @
     stale_events (s3 options) dtag
       (stale_keys (map (logical_name e options outDir) files) (loaded_manifest e svc options w))"
  have 1: "new_events w w' = pre @ [Sent (PutObject (manifest_put e (s3 options) nf)), Deployed]"
    using wb(1) by (simp add: pre_def nf_def)
  have 2: "\<forall>r\<in>set (puts pre). ACL r = Some acl_public_read"
    by (auto simp: pre_def dest: puts_file_events_acl)
  have 3: "manifest_put e (s3 options) nf =
           \<lparr>Bucket = bucket (s3 options),
            Key = normalizeKey (s3 options) ''fingerprints.json'',
            Body = Text (JSON_stringify e nf),
            ContentType = Some ''application/json'',
            ContentLength = length (JSON_stringify e nf),
            CacheControl = None,
            ACL = Some acl_private,
            ContentEncoding = None\<rparr>"
    by (simp add: manifest_put_def putObject_input_def manifest_options_def)
  have 4: "fst ` set nf = logical_name e options outDir ` set files"
    using assms(2) by (simp add: nf_def keys_written_manifest files_def)
  have 5: "distinct (map fst nf)"
    by (simp add: nf_def distinct_written_manifest)
  have 6: "map_of nf = map_of (rev (map (manifest_entry e options outDir) files))"
  proof
    fix n
    show "map_of nf n = map_of (rev (map (manifest_entry e options outDir) files)) n"
    proof (cases "n = ''__proto__''")
      case True
      with assms(2) have "n \<notin> fst ` set (rev (map (manifest_entry e options outDir) files))"
        by (auto simp: manifest_entry_def files_def)
      then have "map_of (rev (map (manifest_entry e options outDir) files)) n = None"
        by (simp add: map_of_eq_None_iff)
      with True show ?thesis by (simp add: nf_def map_of_written_manifest)
    next
      case False
      then show ?thesis by (simp add: nf_def map_of_written_manifest)
    qed
  qed
  have 7: "\<forall>f\<in>set files. \<exists>data. readFile e f = Inr data
             \<and> manifest_entry e options outDir f =
                 (logical_name e options outDir f, \<lparr>hash = sha256_hex e data, processed = None\<rparr>)"
    using wb(2) by (auto simp: manifest_entry_def dest: digest_readFile)
  have 8: "\<forall>kv\<in>set nf. processed (snd kv) = None"
    by (auto simp: nf_def dest: processed_written_manifest)
  from 1 2 3 4 5 6 7 8 show ?thesis by blast
qed

theorem manifest_postcondition_witness:
  "fst (writeBundle site_env (demo_bucket False) site_options None ''/dist'' (world0 old_bucket)) = Inr ()
   \<and> ''__proto__'' \<notin> logical_name site_env site_options ''/dist'' ` set (listing site_env ''/dist'')
   \<and> (\<exists>pre. new_events (world0 old_bucket)
              (snd (writeBundle site_env (demo_bucket False) site_options None ''/dist'' (world0 old_bucket)))
            = pre @ [Sent (PutObject (manifest_put site_env (s3 site_options)
                  (written_manifest site_env site_options ''/dist'' (listing site_env ''/dist'')))),
                Deployed])
   \<and> fst ` set (written_manifest site_env site_options ''/dist'' (listing site_env ''/dist''))
       = {''index'', ''app.js''}
   \<and> map_of (written_manifest site_env site_options ''/dist'' (listing site_env ''/dist'')) ''index''
       = Some \<lparr>hash = ''sha256:<h1>'', processed = None\<rparr>"
proof -
  have ok: "fst (writeBundle site_env (demo_bucket False) site_options None ''/dist''
      (world0 old_bucket)) = Inr ()"
    by code_simp
  have np: "''__proto__'' \<notin> logical_name site_env site_options ''/dist'' ` set (listing site_env ''/dist'')"
    by code_simp
  note t = manifest_postcondition[OF pair_fst[OF ok] np]
  from t have 1: "\<exists>pre. new_events (world0 old_bucket)
              (snd (writeBundle site_env (demo_bucket False) site_options None ''/dist'' (world0 old_bucket)))
            = pre @ [Sent (PutObject (manifest_put site_env (s3 site_options)
                  (written_manifest site_env site_options ''/dist'' (listing site_env ''/dist'')))),
                Deployed]"
    by blast
  from t have "fst ` set (written_manifest site_env site_options ''/dist'' (listing site_env ''/dist''))
       = logical_name site_env site_options ''/dist'' ` set (listing site_env ''/dist'')"
    by blast
  also have "\<dots> = {''index'', ''app.js''}" by code_simp
  finally have 2: "fst ` set (written_manifest site_env site_options ''/dist'' (listing site_env ''/dist''))
       = {''index'', ''app.js''}" .
  from t have "map_of (written_manifest site_env site_options ''/dist'' (listing site_env ''/dist'')) ''index''
       = map_of (rev (map (manifest_entry site_env site_options ''/dist'') (listing site_env ''/dist''))) ''index''"
    by simp
  also have "\<dots> = Some \<lparr>hash = ''sha256:<h1>'', processed = None\<rparr>" by code_simp
  finally have 3: "map_of (written_manifest site_env site_options ''/dist'' (listing site_env ''/dist'')) ''index''
       = Some \<lparr>hash = ''sha256:<h1>'', processed = None\<rparr>" .
  from ok np 1 2 3 show ?thesis by blast
qed

text \<open>
  The claim as stated fails in two ways. Of two local files that share a logical name only
  the last is recorded: \<^verbatim>\<open>about\<close> has the digest \<^verbatim>\<open>sha256:A\<close>, the manifest records
  \<^verbatim>\<open>sha256:B\<close> under its name. And a local file named \<^verbatim>\<open>__proto__\<close> is uploaded but
  absent from the manifest.
\<close>

theorem manifest_last_wins_counterexample:
  "listing about_env ''/dist'' = [''/dist/about'', ''/dist/about.html'']
   \<and> map (logical_name about_env site_options ''/dist'') (listing about_env ''/dist'') = [''about'', ''about'']
   \<and> hash_file about_env ''/dist/about'' = Inr ''sha256:A''
   \<and> fst (writeBundle about_env (demo_bucket False) site_options None ''/dist'' (world0 [])) = Inr ()
   \<and> written_manifest about_env site_options ''/dist'' (listing about_env ''/dist'')
       = [(''about'', \<lparr>hash = ''sha256:B'', processed = None\<rparr>)]
   \<and> map Body (puts (new_events (world0 [])
         (snd (writeBundle about_env (demo_bucket False) site_options None ''/dist'' (world0 [])))))
       = [Buffer ''gzip:A'', Buffer ''B'', Text ''about=sha256:B;'']
   \<and> listing proto_env ''/dist'' = [''/dist/__proto__'']
   \<and> fst (writeBundle proto_env (demo_bucket False) site_options None ''/dist'' (world0 [])) = Inr ()
   \<and> map Body (puts (new_events (world0 [])
         (snd (writeBundle proto_env (demo_bucket False) site_options None ''/dist'' (world0 [])))))
       = [Buffer ''gzip:P'', Text '''']"
  by code_simp

subsection \<open>C4: stale entries\<close>




subsection \<open>C1: a second pass over the same files\<close>

text \<open>
  C1, as amended. Let two passes over the same files complete, the second loading as a
  mapping the manifest that the first wrote. If no two local files share a logical name
  and none has the logical name \<^verbatim>\<open>__proto__\<close>, the second pass sends the fetch of the
  manifest and the manifest write and nothing else, and its manifest write is the request
  that the first pass ended with.
\<close>

theorem second_pass_idle:
  assumes "writeBundle e svc options dtag outDir w1 = (Inr u1, w1')"
    and "writeBundle e svc options dtag outDir w2 = (Inr u2, w2')"
    and "map_of (loaded_manifest e svc options w2) =
         map_of (written_manifest e options outDir (listing e outDir))"
    and "distinct (map (logical_name e options outDir) (listing e outDir))"
    and "''__proto__'' \<notin> logical_name e options outDir ` set (listing e outDir)"
  defines "final \<equiv> manifest_put e (s3 options) (written_manifest e options outDir (listing e outDir))"
  shows "sent (new_events w2 w2') =
           [GetObject (bucket (s3 options)) (normalizeKey (s3 options) ''fingerprints.json''),
            PutObject final]
       \<and> last (sent (new_events w1 w1')) = PutObject final"
proof -
  define files where "files = listing e outDir"
  define loaded where "loaded = loaded_manifest e svc options w2"
  define nf where "nf = written_manifest e options outDir files"
  note wb1 = writeBundle_Inr[OF assms(1), folded files_def]
  note wb2 = writeBundle_Inr[OF assms(2), folded files_def loaded_def]
  have ml: "map_of loaded = map_of nf"
    using assms(3) by (simp add: loaded_def nf_def files_def)
  have same: "file_events e options outDir loaded f = []" if f: "f \<in> set files" for f
  proof -
    have d: "distinct (map fst (map (manifest_entry e options outDir) files))"
      using assms(4) by (simp add: manifest_entry_def files_def comp_def)
    have np: "logical_name e options outDir f \<noteq> ''__proto__''"
      using assms(5) f unfolding files_def by force
    have "manifest_entry e options outDir f \<in> set (rev (map (manifest_entry e options outDir) files))"
      using f by simp
    moreover have "distinct (map fst (rev (map (manifest_entry e options outDir) files)))"
      using d by (simp add: rev_map[symmetric] del: map_map)
    ultimately have "map_of (rev (map (manifest_entry e options outDir) files))
        (logical_name e options outDir f) = Some \<lparr>hash = digest e f, processed = None\<rparr>"
      by (intro map_of_is_SomeI) (simp_all add: manifest_entry_def)
    with np have "map_of nf (logical_name e options outDir f)
        = Some \<lparr>hash = digest e f, processed = None\<rparr>"
      by (simp add: nf_def map_of_written_manifest)
    with ml have "recorded_hash loaded (logical_name e options outDir f) = Some (digest e f)"
      by (simp add: recorded_hash_def)
    with wb2(2) f show ?thesis by (auto intro: file_events_Nil)
  qed
  then have F: "concat (map (file_events e options outDir loaded) files) = []"
    by simp
  have st: "stale_keys (map (logical_name e options outDir) files) loaded = []"
  proof -
    have "k \<in> logical_name e options outDir ` set files" if "(k, fp) \<in> set loaded" for k fp
    proof -
      from that have "map_of loaded k \<noteq> None"
        by (auto dest: weak_map_of_SomeI)
      with ml have "k \<in> fst ` set nf" by (simp add: map_of_eq_None_iff)
      then show ?thesis by (simp add: nf_def keys_written_manifest)
    qed
    then show ?thesis by (auto simp: stale_keys_def filter_empty_conv)
  qed
  have 1: "sent (new_events w2 w2') =
           [GetObject (bucket (s3 options)) (normalizeKey (s3 options) ''fingerprints.json''),
            PutObject final]"
    using wb2(1) unfolding F st
    by (simp add: final_def files_def stale_events_def)
  have 2: "last (sent (new_events w1 w1')) = PutObject final"
    using wb1(1) by (simp add: final_def files_def)
  from 1 2 show ?thesis by blast
qed

theorem second_pass_idle_witness:
  "fst (writeBundle site_env (demo_bucket False) site_options None ''/dist'' (world0 [])) = Inr ()
   \<and> fst (writeBundle site_env (demo_bucket False) site_options None ''/dist''
        (snd (writeBundle site_env (demo_bucket False) site_options None ''/dist'' (world0 [])))) = Inr ()
   \<and> distinct (map (logical_name site_env site_options ''/dist'') (listing site_env ''/dist''))
   \<and> sent (new_events
        (snd (writeBundle site_env (demo_bucket False) site_options None ''/dist'' (world0 [])))
        (snd (writeBundle site_env (demo_bucket False) site_options None ''/dist''
               (snd (writeBundle site_env (demo_bucket False) site_options None ''/dist'' (world0 []))))))
      = [GetObject (bucket (s3 site_options)) (normalizeKey (s3 site_options) ''fingerprints.json''),
         PutObject (manifest_put site_env (s3 site_options)
           (written_manifest site_env site_options ''/dist'' (listing site_env ''/dist'')))]"
proof -
  define w1 where "w1 = snd (writeBundle site_env (demo_bucket False) site_options None ''/dist'' (world0 []))"
  have ok1: "fst (writeBundle site_env (demo_bucket False) site_options None ''/dist'' (world0 [])) = Inr ()"
    by code_simp
  have ok2: "fst (writeBundle site_env (demo_bucket False) site_options None ''/dist''
        (snd (writeBundle site_env (demo_bucket False) site_options None ''/dist'' (world0 [])))) = Inr ()"
    by code_simp
  have ld: "loaded_manifest site_env (demo_bucket False) site_options
        (snd (writeBundle site_env (demo_bucket False) site_options None ''/dist'' (world0 [])))
      = written_manifest site_env site_options ''/dist'' (listing site_env ''/dist'')"
    by code_simp
  have d: "distinct (map (logical_name site_env site_options ''/dist'') (listing site_env ''/dist''))"
    by code_simp
  have np: "''__proto__'' \<notin> logical_name site_env site_options ''/dist'' ` set (listing site_env ''/dist'')"
    by code_simp
  from second_pass_idle[OF pair_fst[OF ok1] pair_fst[OF ok2] arg_cong[OF ld] d np]
  have "sent (new_events
        (snd (writeBundle site_env (demo_bucket False) site_options None ''/dist'' (world0 [])))
        (snd (writeBundle site_env (demo_bucket False) site_options None ''/dist''
               (snd (writeBundle site_env (demo_bucket False) site_options None ''/dist'' (world0 []))))))
      = [GetObject (bucket (s3 site_options)) (normalizeKey (s3 site_options) ''fingerprints.json''),
         PutObject (manifest_put site_env (s3 site_options)
           (written_manifest site_env site_options ''/dist'' (listing site_env ''/dist'')))]"
    by blast
  with ok1 ok2 d show ?thesis by blast
qed

text \<open>
  The claim as stated fails for two local files that share a logical name: the manifest
  records the digest of the last one, so the second pass uploads the first one again.
\<close>

theorem second_pass_uploads_counterexample:
  "map (logical_name about_env site_options ''/dist'') (listing about_env ''/dist'') = [''about'', ''about'']
   \<and> fst (writeBundle about_env (demo_bucket False) site_options None ''/dist'' (world0 [])) = Inr ()
   \<and> fst (writeBundle about_env (demo_bucket False) site_options None ''/dist''
        (snd (writeBundle about_env (demo_bucket False) site_options None ''/dist'' (world0 [])))) = Inr ()
   \<and> loaded_manifest about_env (demo_bucket False) site_options
        (snd (writeBundle about_env (demo_bucket False) site_options None ''/dist'' (world0 [])))
      = written_manifest about_env site_options ''/dist'' (listing about_env ''/dist'')
   \<and> map (\<lambda>r. (Key r, Body r)) (puts (new_events
        (snd (writeBundle about_env (demo_bucket False) site_options None ''/dist'' (world0 [])))
        (snd (writeBundle about_env (demo_bucket False) site_options None ''/dist''
               (snd (writeBundle about_env (demo_bucket False) site_options None ''/dist'' (world0 [])))))))
      = [(''site/about'', Buffer ''gzip:A''), (''site/fingerprints.json'', Text ''about=sha256:B;'')]"
  by code_simp

section \<open>Further properties of a pass\<close>

subsection \<open>The first pass\<close>

text \<open>
  When the manifest is absent and the pass completes, the loaded map is empty, every
  listed file is uploaded, in the order of the listing, and nothing is deleted or tagged.
\<close>

theorem first_run_uploads_everything:
  assumes "writeBundle e svc options dtag outDir w = (Inr u, w')"
    and "fst (get svc (s3 options) ''fingerprints.json'' w) = Inr None"
  shows "loaded_manifest e svc options w = []
       \<and> map Key (puts (new_events w w')) =
           map (\<lambda>f. normalizeKey (s3 options) (logical_name e options outDir f)) (listing e outDir) @
           [normalizeKey (s3 options) ''fingerprints.json'']
       \<and> mutations (new_events w w') = []"
proof -
  have j: "fst (getJson e svc (s3 options) ''fingerprints.json'' w) = Inr None"
    using assms(2)
    by (auto simp: getJson_def bind_def return_def split: prod.splits sum.splits)
  then have ld: "loaded_manifest e svc options w = []"
    by (simp add: loaded_manifest_def)
  note wb = writeBundle_Inr[OF assms(1), unfolded ld]
  have ch: "changed e options outDir [] f" for f
    by (simp add: changed_def)
  have up: "\<forall>f\<in>set (listing e outDir). changed e options outDir [] f \<longrightarrow>
           Uploaded (logical_name e options outDir f) \<in> set (file_events e options outDir [] f)"
    using wb(3) by (simp add: changed_recorded_hash)
  note sm = concat_file_events_summary[OF wb(2) up]
  have st: "stale_keys names [] = []" for names
    by (simp add: stale_keys_def)
  have 1: "map Key (puts (new_events w w')) =
           map (\<lambda>f. normalizeKey (s3 options) (logical_name e options outDir f)) (listing e outDir) @
           [normalizeKey (s3 options) ''fingerprints.json'']"
    using wb(1) by (simp add: sm(1) ch st manifest_put_def putObject_input_def)
  have 2: "mutations (new_events w w') = []"
    using wb(1) by (simp add: st manifest_put_def)
  from ld 1 2 show ?thesis by blast
qed

theorem first_run_uploads_everything_witness:
  "fst (writeBundle site_env (demo_bucket False) site_options None ''/dist'' (world0 [])) = Inr ()
   \<and> fst (get (demo_bucket False) (s3 site_options) ''fingerprints.json'' (world0 [])) = Inr None
   \<and> map Key (puts (new_events (world0 [])
        (snd (writeBundle site_env (demo_bucket False) site_options None ''/dist'' (world0 [])))))
      = [''site/index'', ''site/app.js'', ''site/fingerprints.json'']
   \<and> mutations (new_events (world0 [])
        (snd (writeBundle site_env (demo_bucket False) site_options None ''/dist'' (world0 [])))) = []"
proof -
  have ok: "fst (writeBundle site_env (demo_bucket False) site_options None ''/dist'' (world0 [])) = Inr ()"
    by code_simp
  have ab: "fst (get (demo_bucket False) (s3 site_options) ''fingerprints.json'' (world0 [])) = Inr None"
    by code_simp
  note t = first_run_uploads_everything[OF pair_fst[OF ok] ab]
  from t have "map Key (puts (new_events (world0 [])
        (snd (writeBundle site_env (demo_bucket False) site_options None ''/dist'' (world0 [])))))
      = map (\<lambda>f. normalizeKey (s3 site_options) (logical_name site_env site_options ''/dist'' f))
          (listing site_env ''/dist'') @ [normalizeKey (s3 site_options) ''fingerprints.json'']"
    by blast
  also have "\<dots> = [''site/index'', ''site/app.js'', ''site/fingerprints.json'']" by code_simp
  finally have 1: "map Key (puts (new_events (world0 [])
        (snd (writeBundle site_env (demo_bucket False) site_options None ''/dist'' (world0 [])))))
      = [''site/index'', ''site/app.js'', ''site/fingerprints.json'']" .
  from t ok ab 1 show ?thesis by blast
qed

subsection \<open>An empty output directory\<close>

text \<open>
  When the listing is empty and the pass completes, every loaded entry whose marker is
  not already true is deleted or tagged, and the empty map is written.
\<close>

theorem empty_output_clears_bucket:
  assumes "writeBundle e svc options dtag outDir w = (Inr u, w')"
    and "listing e outDir = []"
  shows "mutations (new_events w w') =
           map (mutation (s3 options) dtag)
             (map fst (filter (\<lambda>(k, fp). processed fp \<noteq> Some True)
                         (loaded_manifest e svc options w)))
       \<and> puts (new_events w w') = [manifest_put e (s3 options) []]"
proof -
  note wb = writeBundle_Inr[OF assms(1), unfolded assms(2)]
  have "stale_keys [] loaded = map fst (filter (\<lambda>(k, fp). processed fp \<noteq> Some True) loaded)"
    for loaded
    using stale_keys_clean[of "[]" loaded] by simp
  with wb(1) show ?thesis
    by (simp add: written_manifest_def manifest_put_def)
qed

theorem empty_output_clears_bucket_witness:
  "fst (writeBundle empty_env (demo_bucket False) site_options None ''/dist''
          (world0 (stale_bucket ''old.js=sha256:x;''))) = Inr ()
   \<and> listing empty_env ''/dist'' = []
   \<and> mutations (new_events (world0 (stale_bucket ''old.js=sha256:x;''))
        (snd (writeBundle empty_env (demo_bucket False) site_options None ''/dist''
               (world0 (stale_bucket ''old.js=sha256:x;'')))))
      = [DeleteObject ''b'' ''site/old.js'']
   \<and> puts (new_events (world0 (stale_bucket ''old.js=sha256:x;''))
        (snd (writeBundle empty_env (demo_bucket False) site_options None ''/dist''
               (world0 (stale_bucket ''old.js=sha256:x;'')))))
      = [manifest_put empty_env (s3 site_options) []]"
proof -
  have ok: "fst (writeBundle empty_env (demo_bucket False) site_options None ''/dist''
          (world0 (stale_bucket ''old.js=sha256:x;''))) = Inr ()"
    by code_simp
  have em: "listing empty_env ''/dist'' = []" by code_simp
  note t = empty_output_clears_bucket[OF pair_fst[OF ok] em]
  have "map (mutation (s3 site_options) None)
             (map fst (filter (\<lambda>(k, fp). processed fp \<noteq> Some True)
                         (loaded_manifest empty_env (demo_bucket False) site_options
                            (world0 (stale_bucket ''old.js=sha256:x;'')))))
        = [DeleteObject ''b'' ''site/old.js'']"
    by code_simp
  with t ok em show ?thesis by simp
qed

subsection \<open>A file named \<^verbatim>\<open>__proto__\<close>\<close>

text \<open>
  When a local file has the logical name \<^verbatim>\<open>__proto__\<close>, the loaded manifest has no entry
  of that name and the pass completes, the file is uploaded, the written map has no entry
  for it, and the only entries deleted or tagged are those that no file matches and that
  carry a false marker of their own: an entry without a marker is kept.
\<close>

theorem proto_name_pollutes:
  assumes "writeBundle e svc options dtag outDir w = (Inr u, w')"
    and "f \<in> set (listing e outDir)"
    and "logical_name e options outDir f = ''__proto__''"
    and "map_of (loaded_manifest e svc options w) ''__proto__'' = None"
  shows "map_of (written_manifest e options outDir (listing e outDir)) ''__proto__'' = None
       \<and> normalizeKey (s3 options) ''__proto__'' \<in> set (map Key (puts (new_events w w')))
       \<and> mutations (new_events w w') =
           map (mutation (s3 options) dtag)
             (map fst (filter (\<lambda>(k, fp). k \<notin> logical_name e options outDir ` set (listing e outDir)
                                         \<and> processed fp = Some False)
                         (loaded_manifest e svc options w)))"
proof -
  define files where "files = listing e outDir"
  define loaded where "loaded = loaded_manifest e svc options w"
  note wb = writeBundle_Inr[OF assms(1), folded files_def loaded_def]
  have 1: "map_of (written_manifest e options outDir files) ''__proto__'' = None"
    by (simp add: map_of_written_manifest)
  have c: "changed e options outDir loaded f"
    using assms(3,4) by (simp add: changed_def loaded_def)
  have up: "\<forall>f\<in>set files. changed e options outDir loaded f \<longrightarrow>
           Uploaded (logical_name e options outDir f) \<in> set (file_events e options outDir loaded f)"
    using wb(3) by (simp add: changed_recorded_hash)
  note sm = concat_file_events_summary[OF wb(2) up]
  have "normalizeKey (s3 options) (logical_name e options outDir f)
      \<in> set (map Key (puts (concat (map (file_events e options outDir loaded) files))))"
    unfolding sm(1) using assms(2) c by (auto simp: files_def)
  then have 2: "normalizeKey (s3 options) ''__proto__'' \<in> set (map Key (puts (new_events w w')))"
    using wb(1) assms(3) by simp
  have pol: "proto_polluted (map (logical_name e options outDir) files) loaded"
    using assms(2,3,4) by (force simp: proto_polluted_def files_def loaded_def)
  have ip: "\<not> is_processed True fp \<longleftrightarrow> processed fp = Some False" for fp
    by (cases "processed fp") (auto simp: is_processed_def)
  have sk: "stale_keys (map (logical_name e options outDir) files) loaded =
      map fst (filter (\<lambda>(k, fp). k \<notin> logical_name e options outDir ` set files
                                  \<and> processed fp = Some False) loaded)"
    using pol by (simp add: stale_keys_def ip)
  have 3: "mutations (new_events w w') =
           map (mutation (s3 options) dtag)
             (map fst (filter (\<lambda>(k, fp). k \<notin> logical_name e options outDir ` set files
                                         \<and> processed fp = Some False) loaded))"
    using wb(1) by (simp add: sk manifest_put_def)
  from 1 2 3 show ?thesis by (simp add: files_def loaded_def)
qed

theorem proto_name_pollutes_witness:
  "fst (writeBundle proto_env (demo_bucket False) site_options None ''/dist''
          (world0 (stale_bucket ''old.js=sha256:x;''))) = Inr ()
   \<and> ''/dist/__proto__'' \<in> set (listing proto_env ''/dist'')
   \<and> logical_name proto_env site_options ''/dist'' ''/dist/__proto__'' = ''__proto__''
   \<and> map_of (written_manifest proto_env site_options ''/dist'' (listing proto_env ''/dist'')) ''__proto__''
       = None
   \<and> mutations (new_events (world0 (stale_bucket ''old.js=sha256:x;''))
        (snd (writeBundle proto_env (demo_bucket False) site_options None ''/dist''
               (world0 (stale_bucket ''old.js=sha256:x;''))))) = []"
proof -
  have ok: "fst (writeBundle proto_env (demo_bucket False) site_options None ''/dist''
          (world0 (stale_bucket ''old.js=sha256:x;''))) = Inr ()"
    by code_simp
  have f: "''/dist/__proto__'' \<in> set (listing proto_env ''/dist'')" by code_simp
  have n: "logical_name proto_env site_options ''/dist'' ''/dist/__proto__'' = ''__proto__''"
    by code_simp
  have l: "map_of (loaded_manifest proto_env (demo_bucket False) site_options
      (world0 (stale_bucket ''old.js=sha256:x;''))) ''__proto__'' = None"
    by code_simp
  note t = proto_name_pollutes[OF pair_fst[OF ok] f n l]
  have "map (mutation (s3 site_options) None)
             (map fst (filter (\<lambda>(k, fp). k \<notin> logical_name proto_env site_options ''/dist'' ` set (listing proto_env ''/dist'')
                                         \<and> processed fp = Some False)
                         (loaded_manifest proto_env (demo_bucket False) site_options
                            (world0 (stale_bucket ''old.js=sha256:x;''))))) = []"
    by code_simp
  with t ok f n show ?thesis by simp
qed

end
